theory Spec2Isabelle
  imports Main
begin

section \<open>Provider connectivity detection (ConnectionsService)\<close>

text \<open>
  A shallow embedding of the connections service of the desktop shell: the process
  probe, the shell fallback, the probe cascade, the status and message classifiers, the
  status cache write with its broadcast, and the timeout-retry bookkeeping.

  JavaScript strings are modelled as \<^typ>\<open>string\<close>, one \<^typ>\<open>char\<close> per code unit below
  256. A value that may be \<^verbatim>\<open>null\<close> or \<^verbatim>\<open>undefined\<close> is an \<^typ>\<open>'a option\<close>. Numbers
  (exit codes, milliseconds) are \<^typ>\<open>int\<close>. Calls to the logger have no effect on any
  value computed here and are left out. The registry of providers, the process
  environment, the open windows and the clock are parameters.
\<close>

subsection \<open>Strings\<close>

definition is_digit :: "char \<Rightarrow> bool" where
  "is_digit c = (c \<in> set ''0123456789'')"

text \<open>The white space of \<^verbatim>\<open>\s\<close> and of \<^verbatim>\<open>String.prototype.trim\<close>, among the code
  units below 256: tab, line feed, vertical tab, form feed, carriage return, space and
  the no-break space.\<close>

definition is_space :: "char \<Rightarrow> bool" where
  "is_space c = (c \<in> set [CHR 0x09, CHR 0x0A, CHR 0x0B, CHR 0x0C, CHR 0x0D, CHR 0x20, CHR 0xA0])"

definition trim :: "string \<Rightarrow> string" where
  "trim s = rev (dropWhile is_space (rev (dropWhile is_space s)))"

text \<open>\<^verbatim>\<open>Array.prototype.join\<close> on strings.\<close>

fun join :: "string \<Rightarrow> string list \<Rightarrow> string" where
  "join sep [] = []"
| "join sep [x] = x"
| "join sep (x # y # ys) = x @ sep @ join sep (y # ys)"

text \<open>Truthiness and \<^verbatim>\<open>a || b\<close> on values of type \<^verbatim>\<open>string | null\<close>: \<^verbatim>\<open>null\<close> and
  the empty string are falsy.\<close>

definition truthy :: "string option \<Rightarrow> bool" where
  "truthy v = (case v of None \<Rightarrow> False | Some s \<Rightarrow> s \<noteq> [])"

definition or_else :: "string option \<Rightarrow> string option \<Rightarrow> string option" where
  "or_else a b = (if truthy a then a else b)"

definition or_default :: "string option \<Rightarrow> string \<Rightarrow> string" where
  "or_default a b = (case a of None \<Rightarrow> b | Some s \<Rightarrow> if s \<noteq> [] then s else b)"

text \<open>\<^verbatim>\<open>result.split(/\r?\n/)\<close>: the line under construction is kept reversed in
  the accumulator.\<close>

fun split_lines :: "string \<Rightarrow> string \<Rightarrow> string list" where
  "split_lines acc [] = [rev acc]"
| "split_lines acc [c] =
     (if c = CHR 0x0A then [rev acc, []] else [rev (c # acc)])"
| "split_lines acc (c # d # cs) =
     (if c = CHR 0x0D \<and> d = CHR 0x0A then rev acc # split_lines [] cs
      else if c = CHR 0x0A then rev acc # split_lines [] (d # cs)
      else split_lines (c # acc) (d # cs))"

subsection \<open>The version pattern\<close>

text \<open>
  \<^verbatim>\<open>output.match(/\d+\.\d+(\.\d+)?/)\<close> looks for the leftmost position where the pattern
  matches and, there, takes each digit run greedily. Backtracking a digit run never
  helps: the run is followed by a character that is not a digit, so a shorter run is
  followed by a digit, where the pattern wants a dot or may stop.
\<close>

definition match_here :: "string \<Rightarrow> string option" where
  "match_here s =
     (let d1 = takeWhile is_digit s; r1 = dropWhile is_digit s in
      if d1 = [] then None
      else (case r1 of
        [] \<Rightarrow> None
      | c # r2 \<Rightarrow>
          (if c \<noteq> CHR ''.'' then None
           else (let d2 = takeWhile is_digit r2; r3 = dropWhile is_digit r2 in
             if d2 = [] then None
             else (case r3 of
               [] \<Rightarrow> Some (d1 @ (CHR ''.'' # d2))
             | c' # r4 \<Rightarrow>
                 (let d3 = takeWhile is_digit r4 in
                  if c' = CHR ''.'' \<and> d3 \<noteq> []
                  then Some (d1 @ (CHR ''.'' # (d2 @ (CHR ''.'' # d3))))
                  else Some (d1 @ (CHR ''.'' # d2))))))))"

fun match_first :: "string \<Rightarrow> string option" where
  "match_first [] = None"
| "match_first (c # cs) =
     (case match_here (c # cs) of Some v \<Rightarrow> Some v | None \<Rightarrow> match_first cs)"

definition extractVersion :: "string \<Rightarrow> string option" where
  "extractVersion output = (if output = [] then None else match_first output)"

text \<open>The pattern itself, as a regular expression with its language, to state what
  \<^const>\<open>extractVersion\<close> finds.\<close>

datatype rexp = Digit | Lit char | Seq rexp rexp | Plus rexp | Opt rexp

primrec lang :: "rexp \<Rightarrow> string set" where
  "lang Digit = {[c] | c. is_digit c}"
| "lang (Lit c) = {[c]}"
| "lang (Seq a b) = {u @ v | u v. u \<in> lang a \<and> v \<in> lang b}"
| "lang (Plus a) = {concat ws | ws. ws \<noteq> [] \<and> set ws \<subseteq> lang a}"
| "lang (Opt a) = insert [] (lang a)"

definition version_re :: rexp where
  "version_re =
     Seq (Plus Digit) (Seq (Lit CHR ''.'') (Seq (Plus Digit)
       (Opt (Seq (Lit CHR ''.'') (Plus Digit)))))"

definition digs :: "string \<Rightarrow> bool" where
  "digs s = (s \<noteq> [] \<and> list_all is_digit s)"

text \<open>\<open>v\<close> is the first match of \<open>R\<close> in \<open>s\<close>: it occurs in \<open>s\<close>, no match starts
  further left, and no match starting at the same place is longer.\<close>

definition first_match :: "rexp \<Rightarrow> string \<Rightarrow> string \<Rightarrow> bool" where
  "first_match R s v \<longleftrightarrow>
     (\<exists>pre post. s = pre @ v @ post \<and> v \<in> lang R \<and>
        (\<forall>pre' v' post'. s = pre' @ v' @ post' \<and> v' \<in> lang R \<longrightarrow>
           length pre < length pre' \<or> (length pre' = length pre \<and> length v' \<le> length v)))"

definition no_match :: "rexp \<Rightarrow> string \<Rightarrow> bool" where
  "no_match R s \<longleftrightarrow> (\<forall>pre v post. s = pre @ v @ post \<longrightarrow> v \<notin> lang R)"

subsection \<open>Data model\<close>

datatype CliStatusCode = Connected | Missing | NeedsKey | Error

text \<open>A JavaScript \<^verbatim>\<open>Error\<close>: its message and, for system errors, its \<^verbatim>\<open>code\<close>
  (\<^verbatim>\<open>undefined\<close> otherwise).\<close>

record js_error =
  message :: string
  code :: "string option"

text \<open>\<^verbatim>\<open>command\<close> is declared a string; the shell fallback can store \<^verbatim>\<open>undefined\<close>
  there (the last element of an empty command list), hence the option. An absent
  \<^verbatim>\<open>timedOut\<close> is falsy and modelled as \<open>False\<close>.\<close>

record CommandResult =
  command :: "string option"
  success :: bool
  error :: "js_error option"
  stdout :: string
  stderr :: string
  status :: "int option"
  version :: "string option"
  resolvedPath :: "string option"
  timedOut :: bool
  timeoutMs :: int

record CliDefinition =
  def_id :: string
  name :: string
  commands :: "string list"
  args :: "string list"
  docUrl :: "string option"
  installCommand :: "string option"
  detectable :: "bool option"
  statusResolver :: "(CommandResult \<Rightarrow> CliStatusCode) option"
  messageResolver :: "(CommandResult \<Rightarrow> string option) option"

text \<open>The persisted status; its \<^verbatim>\<open>version\<close> field is \<open>ps_version\<close> here.\<close>

record ProviderStatus =
  installed :: bool
  path :: "string option"
  ps_version :: "string option"
  lastChecked :: int

definition DEFAULT_TIMEOUT_MS :: int where
  "DEFAULT_TIMEOUT_MS = 3000"

subsection \<open>The process environment\<close>

text \<open>
  What a spawned child does, as \<^verbatim>\<open>runCommand\<close> observes it: \<^verbatim>\<open>spawn\<close> throws; or the
  \<^verbatim>\<open>error\<close> event comes first; or the \<^verbatim>\<open>close\<close> event comes first, with the exit code
  (\<^verbatim>\<open>null\<close> when a signal ended the process); or neither event ever comes. The two
  strings are the output accumulated on stdout and stderr until then, the flag tells
  whether the kill timer had fired (\<^verbatim>\<open>didTimeout\<close>).
\<close>

datatype child_outcome =
    SpawnThrows js_error
  | ErrorEvent js_error string string bool
  | CloseEvent "int option" string string bool
  | NoEvent

text \<open>\<open>execFileSync file argv\<close> is the output of the lookup utility, \<open>None\<close> when the call
  throws. \<open>spawn file argv ms\<close> is the fate of the child started with that file and
  argument vector under a kill timer of \<open>ms\<close> milliseconds.\<close>

record proc_env =
  platform :: string
  env_SHELL :: "string option"
  env_ComSpec :: "string option"
  execFileSync :: "string \<Rightarrow> string list \<Rightarrow> string option"
  spawn :: "string \<Rightarrow> string list \<Rightarrow> int \<Rightarrow> child_outcome"

subsection \<open>Quoting for cmd.exe\<close>

definition toLowerCase :: "string \<Rightarrow> string" where
  "toLowerCase s =
     map (\<lambda>c. let n = (of_char c :: nat) in
            if (65 \<le> n \<and> n \<le> 90) \<or> (192 \<le> n \<and> n \<le> 222 \<and> n \<noteq> 215)
            then char_of (n + 32) else c) s"

definition endsWith :: "string \<Rightarrow> string \<Rightarrow> bool" where
  "endsWith s suffix =
     (length suffix \<le> length s \<and> drop (length s - length suffix) s = suffix)"

definition quoteForCmdExe :: "string \<Rightarrow> string" where
  "quoteForCmdExe input =
     (if input = [] then [CHR 0x22, CHR 0x22]
      else if \<not> list_ex (\<lambda>c. is_space c \<or> c \<in> set (CHR 0x22 # ''^&|<>()%!'')) input then input
      else
        let r1 = concat (map (\<lambda>c. if c = CHR ''%'' then ''%%'' else [c]) input);
            r2 = concat (map (\<lambda>c. if c = CHR ''!'' then ''^!'' else [c]) r1);
            r3 = concat (map (\<lambda>c. if c \<in> set (CHR 0x22 # ''^&|<>()'')
                                    then [CHR ''^'', c] else [c]) r2)
        in [CHR 0x22] @ r3 @ [CHR 0x22])"

subsection \<open>Command resolver and process probe\<close>

definition resolveCommandPath :: "proc_env \<Rightarrow> string \<Rightarrow> string option" where
  "resolveCommandPath env cmd =
     (let resolver = (if platform env = ''win32'' then ''where'' else ''which'') in
      case execFileSync env resolver [cmd] of
        None \<Rightarrow> None
      | Some result \<Rightarrow>
          (case filter (\<lambda>l. l \<noteq> []) (map trim (split_lines [] result)) of
             [] \<Rightarrow> None
           | l # _ \<Rightarrow> Some l))"

text \<open>The child that \<^verbatim>\<open>runCommand\<close> starts: through the command interpreter for a
  \<^verbatim>\<open>.cmd\<close> or \<^verbatim>\<open>.bat\<close> file on Windows, directly otherwise.\<close>

definition spawn_child :: "proc_env \<Rightarrow> string option \<Rightarrow> string \<Rightarrow> string list \<Rightarrow> int \<Rightarrow> child_outcome" where
  "spawn_child env rp cmd argv ms =
     (let executable = or_default rp cmd;
          lowerExecutable = toLowerCase executable;
          shouldUseCmdExe = (platform env = ''win32'' \<and>
             (endsWith lowerExecutable ''.cmd'' \<or> endsWith lowerExecutable ''.bat''))
      in if shouldUseCmdExe
         then spawn env (or_default (env_ComSpec env) ''cmd.exe'')
                [''/d'', ''/s'', ''/c'', join '' '' (map quoteForCmdExe (executable # argv))] ms
         else spawn env cmd argv ms)"

text \<open>The result is \<open>None\<close> when the promise never settles (the child emits neither
  event).\<close>

definition runCommand :: "proc_env \<Rightarrow> string \<Rightarrow> string list \<Rightarrow> int \<Rightarrow> CommandResult option" where
  "runCommand env cmd argv ms =
     (let rp = resolveCommandPath env cmd in
      case spawn_child env rp cmd argv ms of
           SpawnThrows e \<Rightarrow>
             Some \<lparr>command = Some cmd, success = False, error = Some e, stdout = [], stderr = [],
                   status = None, version = None, resolvedPath = rp, timedOut = False,
                   timeoutMs = ms\<rparr>
         | ErrorEvent e out err didTimeout \<Rightarrow>
             Some \<lparr>command = Some cmd, success = False, error = Some e, stdout = out,
                   stderr = err, status = None, version = None, resolvedPath = rp,
                   timedOut = didTimeout, timeoutMs = ms\<rparr>
         | CloseEvent exit_code out err didTimeout \<Rightarrow>
             Some \<lparr>command = Some cmd,
                   success = (\<not> didTimeout \<and> exit_code = Some 0),
                   error = (if didTimeout
                            then Some \<lparr>message = ''Command timeout'', code = None\<rparr> else None),
                   stdout = out, stderr = err, status = exit_code,
                   version = or_else (extractVersion out) (extractVersion err),
                   resolvedPath = rp, timedOut = didTimeout, timeoutMs = ms\<rparr>
         | NoEvent \<Rightarrow> None)"

subsection \<open>Shell fallback and probe cascade\<close>

definition user_shell :: "proc_env \<Rightarrow> string" where
  "user_shell env =
     or_default (env_SHELL env) (if platform env = ''win32'' then ''cmd.exe'' else ''/bin/sh'')"

text \<open>In a joined array and in a template string, \<^verbatim>\<open>undefined\<close> reads as the empty
  string and as the word \<^verbatim>\<open>undefined\<close>.\<close>

definition shellArgs :: "proc_env \<Rightarrow> string option \<Rightarrow> string list \<Rightarrow> string list" where
  "shellArgs env cmd argv =
     (let fullCmd = join '' '' ((case cmd of None \<Rightarrow> [] | Some c \<Rightarrow> c) # argv)
      in if platform env = ''win32'' then [''/c'', fullCmd] else [''-lc'', fullCmd])"

definition not_found_error :: "string option \<Rightarrow> js_error" where
  "not_found_error cmd =
     \<lparr>message = (case cmd of None \<Rightarrow> ''undefined'' | Some c \<Rightarrow> c)
                  @ '': command not found (shell fallback)'',
      code = None\<rparr>"

definition runCommandViaShell ::
    "proc_env \<Rightarrow> string option \<Rightarrow> string list \<Rightarrow> int \<Rightarrow> CommandResult option" where
  "runCommandViaShell env cmd argv ms =
     (case runCommand env (user_shell env) (shellArgs env cmd argv) ms of
        None \<Rightarrow> None
      | Some result \<Rightarrow>
          if status result = Some 127
          then Some (result\<lparr>command := cmd, success := False, resolvedPath := None,
                  status := None, error := Some (not_found_error cmd)\<rparr>)
          else Some (result\<lparr>command := cmd\<rparr>))"

text \<open>The loop of \<^verbatim>\<open>tryCommands\<close> over the commands still to try; \<open>lastCommand\<close> is what
  the code after the loop reads at index \<^verbatim>\<open>length - 1\<close>.\<close>

fun tryCommands_loop ::
    "proc_env \<Rightarrow> string list \<Rightarrow> string list \<Rightarrow> int \<Rightarrow> string option \<Rightarrow> CommandResult option" where
  "tryCommands_loop env [] argv ms lastCommand = runCommandViaShell env lastCommand argv ms"
| "tryCommands_loop env (cmd # rest) argv ms lastCommand =
     (case runCommand env cmd argv ms of
        None \<Rightarrow> None
      | Some result \<Rightarrow>
          if success result then Some result
          else if (case error result of None \<Rightarrow> False | Some e \<Rightarrow> code e \<noteq> Some ''ENOENT'')
          then Some result
          else tryCommands_loop env rest argv ms lastCommand)"

definition tryCommands :: "proc_env \<Rightarrow> CliDefinition \<Rightarrow> int \<Rightarrow> CommandResult option" where
  "tryCommands env d ms =
     tryCommands_loop env (commands d) (args d) ms
       (if commands d = [] then None else Some (last (commands d)))"

subsection \<open>Status and message classification\<close>

definition resolveStatus :: "CliDefinition \<Rightarrow> CommandResult \<Rightarrow> CliStatusCode" where
  "resolveStatus d result =
     (case statusResolver d of
        Some f \<Rightarrow> f result
      | None \<Rightarrow>
          if success result then Connected
          else if truthy (resolvedPath result) then Connected
          else if timedOut result \<and> stdout result \<noteq> [] then Connected
          else if status result \<noteq> None \<and> \<not> timedOut result
                  \<and> (stdout result \<noteq> [] \<or> stderr result \<noteq> []) then Connected
          else if error result \<noteq> None then Error else Missing)"

definition resolveMessage ::
    "CliDefinition \<Rightarrow> CommandResult \<Rightarrow> CliStatusCode \<Rightarrow> string option" where
  "resolveMessage d result st =
     (if def_id d = ''codex''
      then (if st = Connected then None
            else Some ''Codex CLI not detected. Install @openai/codex to enable Codex agents.'')
      else case messageResolver d of
        Some f \<Rightarrow> f result
      | None \<Rightarrow>
          if st = Missing then Some (name d @ '' was not found in PATH.'')
          else if st = Error then
            (if trim (stderr result) \<noteq> [] then Some (trim (stderr result))
             else if trim (stdout result) \<noteq> [] then Some (trim (stdout result))
             else (case error result of Some e \<Rightarrow> Some (message e) | None \<Rightarrow> None))
          else None)"

text \<open>The ordered policy of the specification, in its words: a resolved path counts
  when it is not null.\<close>

definition status_policy :: "CommandResult \<Rightarrow> CliStatusCode" where
  "status_policy result =
     (if success result then Connected
      else if resolvedPath result \<noteq> None then Connected
      else if timedOut result \<and> stdout result \<noteq> [] then Connected
      else if status result \<noteq> None \<and> \<not> timedOut result
              \<and> (stdout result \<noteq> [] \<or> stderr result \<noteq> []) then Connected
      else if error result \<noteq> None then Error else Missing)"

subsection \<open>The service: retry bookkeeping, status store, broadcast\<close>

datatype reason = Bootstrap | Manual | TimeoutRetry

record opts =
  opts_timeoutMs :: "int option"
  allowRetry :: "bool option"

text \<open>An armed timer of the runtime: its handle and what its callback closes over.\<close>

record timer =
  handle :: nat
  providerId :: string
  retryTimeoutMs :: int

text \<open>A \<^verbatim>\<open>checkProvider\<close> invocation suspended at \<^verbatim>\<open>await this.tryCommands(...)\<close>.
  \<open>from_timer\<close> tells whether it was started by a retry timer's callback, which
  attaches \<^verbatim>\<open>.finally(() => this.timeoutRetryPending.delete(providerId))\<close>.\<close>

record invocation =
  inv_def :: CliDefinition
  inv_providerId :: string
  inv_reason :: reason
  inv_opts :: "opts option"
  inv_timeoutMs :: int
  from_timer :: bool

text \<open>An open window: sending to it either works or throws.\<close>

record window =
  win_id :: nat
  send_throws :: bool

text \<open>
  The state of the service and of what it acts on: its two private collections, the
  timers armed in the runtime, the suspended invocations, the status store and the
  messages delivered to windows (window, channel, provider id, status).
\<close>

text \<open>Modelled from the spec: the status store \<^verbatim>\<open>providerStatusCache\<close>, whose module is
  not among the sources at hand, is a key-value store with one Provider Status per
  provider id; its \<^verbatim>\<open>set(id, status)\<close> overwrites the entry of \<open>id\<close> wholesale.\<close>

record service =
  timeoutRetryPending :: "string set"
  timeoutRetryTimers :: "string \<rightharpoonup> nat"
  timers :: "timer list"
  next_handle :: nat
  suspended :: "invocation list"
  providerStatusCache :: "string \<rightharpoonup> ProviderStatus"
  delivered :: "(nat \<times> string \<times> string \<times> ProviderStatus) list"

definition init :: service where
  "init = \<lparr>timeoutRetryPending = {}, timeoutRetryTimers = Map.empty, timers = [],
           next_handle = 0, suspended = [], providerStatusCache = Map.empty, delivered = []\<rparr>"

definition clearTimeout :: "service \<Rightarrow> nat \<Rightarrow> service" where
  "clearTimeout s h = s\<lparr>timers := filter (\<lambda>t. handle t \<noteq> h) (timers s)\<rparr>"

text \<open>\<^verbatim>\<open>setTimeout\<close> arms a timer under a fresh handle and returns the handle.\<close>

definition setTimeout :: "service \<Rightarrow> string \<Rightarrow> int \<Rightarrow> nat \<times> service" where
  "setTimeout s pid ms =
     (next_handle s,
      s\<lparr>timers := timers s @ [\<lparr>handle = next_handle s, providerId = pid, retryTimeoutMs = ms\<rparr>],
        next_handle := Suc (next_handle s)\<rparr>)"

definition clearTimeoutRetry :: "service \<Rightarrow> string \<Rightarrow> service" where
  "clearTimeoutRetry s pid =
     (let s1 = (case timeoutRetryTimers s pid of
                  Some pendingTimer \<Rightarrow>
                    (clearTimeout s pendingTimer)
                      \<lparr>timeoutRetryTimers := (timeoutRetryTimers s)(pid := None)\<rparr>
                | None \<Rightarrow> s)
      in s1\<lparr>timeoutRetryPending := timeoutRetryPending s1 - {pid}\<rparr>)"

definition emitStatusUpdate :: "window list \<Rightarrow> service \<Rightarrow> string \<Rightarrow> ProviderStatus \<Rightarrow> service" where
  "emitStatusUpdate wins s pid st =
     s\<lparr>delivered := delivered s @
          map (\<lambda>w. (win_id w, ''provider:status-updated'', pid, st))
              (filter (\<lambda>w. \<not> send_throws w) wins)\<rparr>"

definition cacheStatus ::
    "window list \<Rightarrow> int \<Rightarrow> service \<Rightarrow> string \<Rightarrow> CommandResult \<Rightarrow> CliStatusCode \<Rightarrow> service" where
  "cacheStatus wins now s pid result statusCode =
     (let st = \<lparr>installed = (statusCode = Connected), path = resolvedPath result,
                ps_version = version result, lastChecked = now\<rparr>
      in emitStatusUpdate wins
           (s\<lparr>providerStatusCache := (providerStatusCache s)(pid \<mapsto> st)\<rparr>) pid st)"

text \<open>
  \<^verbatim>\<open>checkProvider\<close> up to its first suspension: the lookup of the definition, the
  cancellation of a pending retry, the choice of the timeout. With an unknown id the
  call returns at once, and a retry callback's \<^verbatim>\<open>finally\<close> then runs.
\<close>

definition checkProvider_begin ::
    "CliDefinition list \<Rightarrow> service \<Rightarrow> string \<Rightarrow> reason \<Rightarrow> opts option \<Rightarrow> bool \<Rightarrow> service" where
  "checkProvider_begin CLI_DEFINITIONS s pid why options fromTimer =
     (case find (\<lambda>d. def_id d = pid) CLI_DEFINITIONS of
        None \<Rightarrow>
          (if fromTimer then s\<lparr>timeoutRetryPending := timeoutRetryPending s - {pid}\<rparr> else s)
      | Some d \<Rightarrow>
          let s1 = (if why \<noteq> TimeoutRetry \<and> pid \<in> timeoutRetryPending s
                    then clearTimeoutRetry s pid else s);
              ms = (case options of
                      None \<Rightarrow> DEFAULT_TIMEOUT_MS
                    | Some op \<Rightarrow> (case opts_timeoutMs op of
                                   None \<Rightarrow> DEFAULT_TIMEOUT_MS | Some t \<Rightarrow> t))
          in s1\<lparr>suspended := suspended s1 @
                  [\<lparr>inv_def = d, inv_providerId = pid, inv_reason = why, inv_opts = options,
                    inv_timeoutMs = ms, from_timer = fromTimer\<rparr>]\<rparr>)"

definition shouldRetryTimeout :: "invocation \<Rightarrow> CommandResult \<Rightarrow> bool" where
  "shouldRetryTimeout c commandResult =
     (timedOut commandResult
      \<and> (truthy (resolvedPath commandResult) \<or> stdout commandResult \<noteq> [])
      \<and> (case inv_opts c of None \<Rightarrow> True | Some op \<Rightarrow> allowRetry op \<noteq> Some False))"

text \<open>
  The rest of \<^verbatim>\<open>checkProvider\<close>, once the probe cascade has delivered its result:
  classification, store write and broadcast, and the arming of a retry; then the
  \<^verbatim>\<open>finally\<close> of a retry callback.
\<close>

definition checkProvider_resume ::
    "window list \<Rightarrow> int \<Rightarrow> service \<Rightarrow> invocation \<Rightarrow> CommandResult \<Rightarrow> service" where
  "checkProvider_resume wins now s c commandResult =
     (let pid = inv_providerId c;
          statusCode = resolveStatus (inv_def c) commandResult;
          s1 = cacheStatus wins now s (def_id (inv_def c)) commandResult statusCode;
          s2 = (if shouldRetryTimeout c commandResult \<and> pid \<notin> timeoutRetryPending s1
                then
                  let s3 = s1\<lparr>timeoutRetryPending := insert pid (timeoutRetryPending s1)\<rparr>;
                      retryTimeoutMs = max (inv_timeoutMs c * 2) 12000;
                      (retryTimer, s4) = setTimeout s3 pid retryTimeoutMs
                  in s4\<lparr>timeoutRetryTimers := (timeoutRetryTimers s4)(pid \<mapsto> retryTimer)\<rparr>
                else s1)
      in if from_timer c
         then s2\<lparr>timeoutRetryPending := timeoutRetryPending s2 - {pid}\<rparr> else s2)"

text \<open>The callback of a retry timer.\<close>

definition fire :: "CliDefinition list \<Rightarrow> service \<Rightarrow> timer \<Rightarrow> service" where
  "fire CLI_DEFINITIONS s t =
     (let s1 = s\<lparr>timers := filter (\<lambda>u. handle u \<noteq> handle t) (timers s),
                 timeoutRetryTimers := (timeoutRetryTimers s)(providerId t := None)\<rparr>
      in checkProvider_begin CLI_DEFINITIONS s1 (providerId t) TimeoutRetry
           (Some \<lparr>opts_timeoutMs = Some (retryTimeoutMs t), allowRetry = Some False\<rparr>) True)"

text \<open>
  The service runs on one thread; its state changes in three kinds of steps, in any
  order: somebody calls \<^verbatim>\<open>checkProvider\<close>; the probe cascade of the \<open>k\<close>-th suspended
  invocation delivers its result (in the process environment, with the windows open
  and at the clock value of that moment); an armed timer fires. A cascade that never
  delivers leaves the state as it is. Time is not measured: the delay of 1500 ms only
  says that a timer fires at some later step. \<^verbatim>\<open>initProviderStatusCache\<close> and
  \<^verbatim>\<open>refreshAllProviderStatuses\<close> call \<^verbatim>\<open>checkProvider\<close> once for every definition, which
  is a sequence of \<open>Call\<close> steps.
\<close>

datatype event =
    Call string reason "opts option"
  | Settle nat proc_env "window list" int
  | Fire nat

definition step :: "CliDefinition list \<Rightarrow> service \<Rightarrow> event \<Rightarrow> service" where
  "step CLI_DEFINITIONS s ev =
     (case ev of
        Call pid why options \<Rightarrow> checkProvider_begin CLI_DEFINITIONS s pid why options False
      | Settle k env wins now \<Rightarrow>
          (if k < length (suspended s)
           then (let c = suspended s ! k in
                 case tryCommands env (inv_def c) (inv_timeoutMs c) of
                   None \<Rightarrow> s
                 | Some commandResult \<Rightarrow>
                     checkProvider_resume wins now
                       (s\<lparr>suspended := take k (suspended s) @ drop (Suc k) (suspended s)\<rparr>)
                       c commandResult)
           else s)
      | Fire h \<Rightarrow>
          (case find (\<lambda>t. handle t = h) (timers s) of
             None \<Rightarrow> s
           | Some t \<Rightarrow> fire CLI_DEFINITIONS s t))"

definition run :: "CliDefinition list \<Rightarrow> service \<Rightarrow> event list \<Rightarrow> service" where
  "run CLI_DEFINITIONS s evs = foldl (step CLI_DEFINITIONS) s evs"

text \<open>The classification that \<^verbatim>\<open>checkProvider\<close> computes from the cascade's result, and
  the message that \<^verbatim>\<open>resolveMessage\<close> gives for that result and classification; \<open>None\<close>
  when the cascade never delivers.\<close>

definition probe_status :: "proc_env \<Rightarrow> CliDefinition \<Rightarrow> int \<Rightarrow> CliStatusCode option" where
  "probe_status env d ms = map_option (resolveStatus d) (tryCommands env d ms)"

definition probe_message :: "proc_env \<Rightarrow> CliDefinition \<Rightarrow> int \<Rightarrow> string option option" where
  "probe_message env d ms =
     map_option (\<lambda>r. resolveMessage d r (resolveStatus d r)) (tryCommands env d ms)"

subsection \<open>Concrete scenarios\<close>

text \<open>Providers: one with a single command, one with two candidate commands, one with
  no command, and the provider with the id \<^verbatim>\<open>codex\<close>.\<close>

definition claude_def :: CliDefinition where
  "claude_def = \<lparr>def_id = ''claude'', name = ''Claude Code'', commands = [''claude''],
     args = [''--version''], docUrl = None, installCommand = None, detectable = Some True,
     statusResolver = None, messageResolver = None\<rparr>"

definition two_commands_def :: CliDefinition where
  "two_commands_def = claude_def\<lparr>commands := [''claude-code'', ''claude'']\<rparr>"

definition no_commands_def :: CliDefinition where
  "no_commands_def = claude_def\<lparr>commands := []\<rparr>"

definition codex_def :: CliDefinition where
  "codex_def = claude_def\<lparr>def_id := ''codex'', name := ''Codex'', commands := [''codex'']\<rparr>"

text \<open>A POSIX machine whose login shell is \<^verbatim>\<open>/bin/zsh\<close>: \<open>tool\<close> is where \<^verbatim>\<open>which\<close> finds
  \<^verbatim>\<open>claude\<close> (if at all), \<open>direct\<close> what happens to a spawned \<^verbatim>\<open>claude\<close>, \<open>via_shell\<close> what
  happens to a spawned shell. Any other command does not exist.\<close>

definition enoent :: js_error where
  "enoent = \<lparr>message = ''spawn claude ENOENT'', code = Some ''ENOENT''\<rparr>"

definition posix_env :: "string option \<Rightarrow> child_outcome \<Rightarrow> child_outcome \<Rightarrow> proc_env" where
  "posix_env tool direct via_shell =
     \<lparr>platform = ''linux'', env_SHELL = Some ''/bin/zsh'', env_ComSpec = None,
      execFileSync = (\<lambda>file argv.
         if file = ''which'' \<and> argv = [''/bin/zsh''] then Some (''/bin/zsh'' @ [CHR 0x0A])
         else if file = ''which'' \<and> argv = [''claude''] then map_option (\<lambda>p. p @ [CHR 0x0A]) tool
         else None),
      spawn = (\<lambda>file argv ms.
         if file = ''/bin/zsh'' then via_shell
         else if file = ''claude'' then direct
         else ErrorEvent enoent [] [] False)\<rparr>"

definition tool_path :: string where
  "tool_path = ''/usr/local/bin/claude''"

text \<open>The tool is installed and answers at once; the tool is installed and is killed
  by the timeout after writing to stdout; the tool is not installed.\<close>

definition ok_env :: proc_env where
  "ok_env = posix_env (Some tool_path) (CloseEvent (Some 0) ''v2.3.1'' [] False) NoEvent"

definition slow_env :: proc_env where
  "slow_env = posix_env (Some tool_path) (CloseEvent None ''Loading...'' [] True) NoEvent"

definition not_installed_env :: proc_env where
  "not_installed_env = posix_env None (ErrorEvent enoent [] [] False)
      (CloseEvent (Some 127) [] ''zsh:1: command not found: claude'' False)"

definition shell_127_env :: proc_env where
  "shell_127_env = posix_env None (ErrorEvent enoent [] [] False)
      (CloseEvent (Some 127) [] ''zsh:1: command not found: --version'' False)"

text \<open>A Windows machine without \<^verbatim>\<open>SHELL\<close>: the fallback shell is \<^verbatim>\<open>cmd.exe\<close>, which
  answers an unknown command with exit code 1.\<close>

definition cmd_exe_path :: string where
  "cmd_exe_path = ''C:'' @ [CHR 0x5C] @ ''Windows'' @ [CHR 0x5C] @ ''System32'' @ [CHR 0x5C] @ ''cmd.exe''"

definition windows_env :: proc_env where
  "windows_env =
     \<lparr>platform = ''win32'', env_SHELL = None, env_ComSpec = None,
      execFileSync = (\<lambda>file argv.
         if file = ''where'' \<and> argv = [''cmd.exe''] then Some (cmd_exe_path @ [CHR 0x0D, CHR 0x0A])
         else None),
      spawn = (\<lambda>file argv ms.
         if file = ''cmd.exe'' then CloseEvent (Some 1) [] ''is not recognized as a command'' False
         else ErrorEvent enoent [] [] False)\<rparr>"

text \<open>Command Results of these scenarios, and one with blank stderr.\<close>

definition ok_result :: "int \<Rightarrow> CommandResult" where
  "ok_result ms = \<lparr>command = Some ''claude'', success = True, error = None,
     stdout = ''v2.3.1'', stderr = [], status = Some 0, version = Some ''2.3.1'',
     resolvedPath = Some tool_path, timedOut = False, timeoutMs = ms\<rparr>"

definition slow_result :: "int \<Rightarrow> CommandResult" where
  "slow_result ms = \<lparr>command = Some ''claude'', success = False,
     error = Some \<lparr>message = ''Command timeout'', code = None\<rparr>,
     stdout = ''Loading...'', stderr = [], status = None, version = None,
     resolvedPath = Some tool_path, timedOut = True, timeoutMs = ms\<rparr>"

definition not_installed_result :: CommandResult where
  "not_installed_result =
     \<lparr>command = Some ''claude'', success = False,
      error = Some (not_found_error (Some ''claude'')), stdout = [],
      stderr = ''zsh:1: command not found: claude'', status = None, version = None,
      resolvedPath = None, timedOut = False, timeoutMs = 3000\<rparr>"

definition blank_stderr_result :: CommandResult where
  "blank_stderr_result =
     \<lparr>command = Some ''claude'', success = False,
      error = Some \<lparr>message = ''spawn claude EACCES'', code = Some ''EACCES''\<rparr>,
      stdout = ''permission denied'' @ [CHR 0x0A], stderr = '' '', status = None,
      version = None, resolvedPath = None, timedOut = False, timeoutMs = 3000\<rparr>"

definition three_windows :: "window list" where
  "three_windows = [\<lparr>win_id = 1, send_throws = False\<rparr>, \<lparr>win_id = 2, send_throws = True\<rparr>,
                  \<lparr>win_id = 3, send_throws = False\<rparr>]"

text \<open>
  A run of the service in which a tool needs a little more than three seconds to
  answer. A manual check times out and arms the retry timer 0; the timer fires and the
  retry starts with its timeout of twelve seconds; while the retry is in flight two
  manual checks start, the first of which clears the pending flag; the first manual
  check times out and arms timer 1; the retry delivers and its \<^verbatim>\<open>finally\<close> clears the
  pending flag again; the second manual check times out.
\<close>

definition race_prefix :: "event list" where
  "race_prefix =
     [Call ''claude'' Manual None,
      Settle 0 slow_env [] 3000,
      Fire 0,
      Call ''claude'' Manual None,
      Call ''claude'' Manual None,
      Settle 1 slow_env [] 7600,
      Settle 0 ok_env [] 7800]"

definition race_trace :: "event list" where
  "race_trace = race_prefix @ [Settle 0 slow_env [] 8000]"

section \<open>Properties\<close>

subsection \<open>What the version scan finds\<close>

lemma lang_Plus_Digit: "lang (Plus Digit) = {s. digs s}"
proof (rule set_eqI, rule iffI)
  fix s assume "s \<in> lang (Plus Digit)"
  then obtain ws where ws: "s = concat ws" "ws \<noteq> []" "set ws \<subseteq> {[c] | c. is_digit c}"
    by auto
  from ws(3) have "list_all is_digit (concat ws)"
    by (induction ws) auto
  moreover from ws(2,3) have "concat ws \<noteq> []"
    by (cases ws) auto
  ultimately show "s \<in> {s. digs s}" using ws(1) by (simp add: digs_def)
next
  fix s assume "s \<in> {s. digs s}"
  then have s: "s \<noteq> []" "list_all is_digit s" by (simp_all add: digs_def)
  have "s = concat (map (\<lambda>c. [c]) s)" by (induction s) auto
  moreover have "map (\<lambda>c. [c]) s \<noteq> []" using s(1) by simp
  moreover have "set (map (\<lambda>c. [c]) s) \<subseteq> {[c] | c. is_digit c}"
    using s(2) by (auto simp: list_all_iff)
  ultimately show "s \<in> lang (Plus Digit)" 
    unfolding lang.simps by blast
qed

lemma in_Seq: "w \<in> lang (Seq a b) \<longleftrightarrow> (\<exists>u v. w = u @ v \<and> u \<in> lang a \<and> v \<in> lang b)"
  by auto

lemma in_Lit: "w \<in> lang (Lit c) \<longleftrightarrow> w = [c]"
  by simp

lemma in_Opt: "w \<in> lang (Opt a) \<longleftrightarrow> w = [] \<or> w \<in> lang a"
  by auto

lemma in_Plus_Digit: "w \<in> lang (Plus Digit) \<longleftrightarrow> digs w"
  by (simp only: lang_Plus_Digit mem_Collect_eq)

lemma in_dot_digits:
  "w \<in> lang (Seq (Lit CHR ''.'') (Plus Digit)) \<longleftrightarrow> (\<exists>c. digs c \<and> w = CHR ''.'' # c)"
  by (simp only: in_Seq in_Lit in_Plus_Digit) auto

lemma in_tail:
  "w \<in> lang (Seq (Plus Digit) (Opt (Seq (Lit CHR ''.'') (Plus Digit)))) \<longleftrightarrow>
     (\<exists>b. digs b \<and> (w = b \<or> (\<exists>c. digs c \<and> w = b @ CHR ''.'' # c)))"
  by (simp only: in_Seq [of _ "Plus Digit"] in_Opt in_dot_digits in_Plus_Digit) auto

lemma in_dot_tail:
  "w \<in> lang (Seq (Lit CHR ''.'') (Seq (Plus Digit) (Opt (Seq (Lit CHR ''.'') (Plus Digit))))) \<longleftrightarrow>
     (\<exists>b. digs b \<and> (w = CHR ''.'' # b \<or> (\<exists>c. digs c \<and> w = CHR ''.'' # b @ CHR ''.'' # c)))"
  by (simp only: in_Seq [of _ "Lit CHR ''.''"] in_Lit in_tail) auto

lemma lang_version_re:
  "v \<in> lang version_re \<longleftrightarrow>
     (\<exists>a b. digs a \<and> digs b \<and>
        (v = a @ CHR ''.'' # b \<or> (\<exists>c. digs c \<and> v = a @ CHR ''.'' # b @ CHR ''.'' # c)))"
  unfolding version_re_def
  by (simp only: in_Seq [of _ "Plus Digit"] in_dot_tail in_Plus_Digit) auto

lemma takeWhile_digs:
  assumes "list_all is_digit a" "\<not> is_digit x"
  shows "takeWhile is_digit (a @ x # r) = a" "dropWhile is_digit (a @ x # r) = x # r"
  using assms by (induction a) auto

lemma takeWhile_digs_end:
  assumes "list_all is_digit a"
  shows "takeWhile is_digit a = a" "dropWhile is_digit a = []"
  using assms by (induction a) auto

lemma prefix_digs_le:
  assumes "list_all is_digit b"
  shows "length b \<le> length (takeWhile is_digit (b @ post))"
  using assms by (induction b) auto

lemma dot_not_digit: "\<not> is_digit CHR ''.''"
  by (simp add: is_digit_def)

lemma match_here_sound:
  assumes "match_here s = Some v"
  shows "\<exists>post. s = v @ post \<and> v \<in> lang version_re"
proof -
  define d1 where "d1 = takeWhile is_digit s"
  define r1 where "r1 = dropWhile is_digit s"
  have s: "s = d1 @ r1" by (simp add: d1_def r1_def)
  have ld1: "list_all is_digit d1" unfolding d1_def list_all_iff by (auto dest: set_takeWhileD)
  from assms have n1: "d1 \<noteq> []"
    by (auto simp: match_here_def Let_def d1_def split: if_splits)
  from assms n1 obtain r2 where r1: "r1 = CHR ''.'' # r2"
    by (auto simp: match_here_def Let_def d1_def r1_def split: if_splits list.splits)
  define d2 where "d2 = takeWhile is_digit r2"
  define r3 where "r3 = dropWhile is_digit r2"
  have r2: "r2 = d2 @ r3" by (simp add: d2_def r3_def)
  have ld2: "list_all is_digit d2" unfolding d2_def list_all_iff by (auto dest: set_takeWhileD)
  have mh: "match_here s =
      (if d2 = [] then None
       else case r3 of [] \<Rightarrow> Some (d1 @ CHR ''.'' # d2)
         | c' # r4 \<Rightarrow> if c' = CHR ''.'' \<and> takeWhile is_digit r4 \<noteq> []
             then Some (d1 @ CHR ''.'' # d2 @ CHR ''.'' # takeWhile is_digit r4)
             else Some (d1 @ CHR ''.'' # d2))"
    using n1 r1 unfolding match_here_def Let_def d1_def r1_def d2_def r3_def
    by simp
  from assms mh have n2: "d2 \<noteq> []" by (auto split: if_splits)
  have D1: "digs d1" and D2: "digs d2" using n1 n2 ld1 ld2 by (simp_all add: digs_def)
  show ?thesis
  proof (cases "\<exists>r4. r3 = CHR ''.'' # r4 \<and> takeWhile is_digit r4 \<noteq> []")
    case True
    then obtain r4 where r3: "r3 = CHR ''.'' # r4" and n3: "takeWhile is_digit r4 \<noteq> []" by blast
    define d3 where "d3 = takeWhile is_digit r4"
    have ld3: "list_all is_digit d3" unfolding d3_def list_all_iff by (auto dest: set_takeWhileD)
    have D3: "digs d3" using n3 ld3 by (simp add: digs_def d3_def)
    have v: "v = d1 @ CHR ''.'' # d2 @ CHR ''.'' # d3"
      using assms mh n2 r3 n3 by (simp add: d3_def)
    have "s = v @ dropWhile is_digit r4"
      using s r1 r2 r3 v by (simp add: d3_def)
    moreover have "v \<in> lang version_re"
      unfolding lang_version_re using D1 D2 D3 v by blast
    ultimately show ?thesis by blast
  next
    case False
    then have v: "v = d1 @ CHR ''.'' # d2"
      using assms mh n2 by (auto split: list.splits if_splits)
    have "s = v @ r3" using s r1 r2 v by simp
    moreover have "v \<in> lang version_re"
      unfolding lang_version_re using D1 D2 v by blast
    ultimately show ?thesis by blast
  qed
qed

lemma match_here_complete:
  assumes "s = v' @ post'" "v' \<in> lang version_re"
  shows "\<exists>v. match_here s = Some v \<and> length v' \<le> length v"
proof -
  from assms(2) obtain a b where ab: "digs a" "digs b"
     and v': "v' = a @ CHR ''.'' # b \<or> (\<exists>c. digs c \<and> v' = a @ CHR ''.'' # b @ CHR ''.'' # c)"
    unfolding lang_version_re by blast
  have la: "list_all is_digit a" "a \<noteq> []" and lb: "list_all is_digit b" "b \<noteq> []"
    using ab by (simp_all add: digs_def)
  from v' obtain rest where rest: "v' = a @ CHR ''.'' # b @ rest" by auto
  have s: "s = a @ CHR ''.'' # (b @ rest @ post')" using assms(1) rest by simp
  have d1: "takeWhile is_digit s = a" and r1: "dropWhile is_digit s = CHR ''.'' # (b @ rest @ post')"
    unfolding s using takeWhile_digs [OF la(1) dot_not_digit] by simp_all
  define r2 where "r2 = b @ rest @ post'"
  define d2 where "d2 = takeWhile is_digit r2"
  define r3 where "r3 = dropWhile is_digit r2"
  have lenb: "length b \<le> length d2"
    unfolding d2_def r2_def using prefix_digs_le [OF lb(1)] by simp
  then have n2: "d2 \<noteq> []" using lb(2) by auto
  have mh: "match_here s =
      (case r3 of [] \<Rightarrow> Some (a @ CHR ''.'' # d2)
         | c' # r4 \<Rightarrow> if c' = CHR ''.'' \<and> takeWhile is_digit r4 \<noteq> []
             then Some (a @ CHR ''.'' # d2 @ CHR ''.'' # takeWhile is_digit r4)
             else Some (a @ CHR ''.'' # d2))"
    using la(2) n2 unfolding match_here_def Let_def d1 r1 d2_def r3_def r2_def
    by simp
  from v' show ?thesis
  proof
    assume "v' = a @ CHR ''.'' # b"
    then have "length v' \<le> length (a @ CHR ''.'' # d2)" using lenb by simp
    moreover have "\<exists>v. match_here s = Some v \<and> length (a @ CHR ''.'' # d2) \<le> length v"
      unfolding mh by (auto split: list.splits)
    ultimately show ?thesis by (meson le_trans)
  next
    assume "\<exists>c. digs c \<and> v' = a @ CHR ''.'' # b @ CHR ''.'' # c"
    then obtain c where c: "digs c" "v' = a @ CHR ''.'' # b @ CHR ''.'' # c" by blast
    have lc: "list_all is_digit c" "c \<noteq> []" using c(1) by (simp_all add: digs_def)
    have r2': "r2 = b @ CHR ''.'' # (c @ post')"
      using rest c(2) by (simp add: r2_def)
    have d2': "d2 = b" and r3': "r3 = CHR ''.'' # (c @ post')"
      unfolding d2_def r3_def r2' using takeWhile_digs [OF lb(1) dot_not_digit] by simp_all
    have lenc: "length c \<le> length (takeWhile is_digit (c @ post'))"
      using prefix_digs_le [OF lc(1)] by simp
    then have n3: "takeWhile is_digit (c @ post') \<noteq> []" using lc(2) by auto
    have "match_here s = Some (a @ CHR ''.'' # b @ CHR ''.'' # takeWhile is_digit (c @ post'))"
      unfolding mh r3' using n3 by (simp add: d2')
    then show ?thesis using lenc c(2) by simp
  qed
qed

lemma match_here_None:
  assumes "match_here s = None" "s = v' @ post'"
  shows "v' \<notin> lang version_re"
  using match_here_complete [OF assms(2)] assms(1) by auto

lemma match_here_longest:
  assumes "match_here s = Some v" "s = v' @ post'" "v' \<in> lang version_re"
  shows "length v' \<le> length v"
  using match_here_complete [OF assms(2,3)] assms(1) by auto

lemma nil_notin_version: "[] \<notin> lang version_re"
  unfolding lang_version_re by simp

lemma match_first_None: "match_first s = None \<Longrightarrow> no_match version_re s"
proof (induction s)
  case Nil
  then show ?case by (simp add: no_match_def nil_notin_version)
next
  case (Cons c cs)
  from Cons.prems have h: "match_here (c # cs) = None" and t: "match_first cs = None"
    by (auto split: option.splits)
  have ih: "no_match version_re cs" using Cons.IH t by simp
  show ?case unfolding no_match_def
  proof (intro allI impI)
    fix pre v post assume eq: "c # cs = pre @ v @ post"
    show "v \<notin> lang version_re"
    proof (cases pre)
      case Nil
      with eq have "c # cs = v @ post" by simp
      with h show ?thesis by (rule match_here_None)
    next
      case (Cons p ps)
      with eq have "cs = ps @ v @ post" by simp
      with ih show ?thesis unfolding no_match_def by blast
    qed
  qed
qed

lemma match_first_Some: "match_first s = Some v \<Longrightarrow> first_match version_re s v"
proof (induction s)
  case Nil
  then show ?case by simp
next
  case (Cons c cs)
  show ?case
  proof (cases "match_here (c # cs)")
    case (Some w)
    with Cons.prems have w: "w = v" by simp
    from match_here_sound [OF Some] obtain post where
      post: "c # cs = v @ post" "v \<in> lang version_re" using w by blast
    have "\<forall>pre' v' post'. c # cs = pre' @ v' @ post' \<and> v' \<in> lang version_re \<longrightarrow>
           length ([]::string) < length pre' \<or> (length pre' = length ([]::string) \<and> length v' \<le> length v)"
    proof (intro allI impI)
      fix pre' v' post'
      assume a: "c # cs = pre' @ v' @ post' \<and> v' \<in> lang version_re"
      show "length ([]::string) < length pre' \<or> (length pre' = length ([]::string) \<and> length v' \<le> length v)"
      proof (cases pre')
        case Nil
        with a have "c # cs = v' @ post'" by simp
        from match_here_longest [OF Some this] a w show ?thesis using Nil by simp
      next
        case (Cons p ps)
        then show ?thesis by simp
      qed
    qed
    with post show ?thesis unfolding first_match_def
      by (metis append_Nil)
  next
    case None
    with Cons.prems have "match_first cs = Some v" by simp
    from Cons.IH [OF this] obtain pre post where
      pp: "cs = pre @ v @ post" "v \<in> lang version_re"
      and least: "\<And>pre' v' post'. cs = pre' @ v' @ post' \<Longrightarrow> v' \<in> lang version_re \<Longrightarrow>
           length pre < length pre' \<or> (length pre' = length pre \<and> length v' \<le> length v)"
      unfolding first_match_def by blast
    have "\<forall>pre' v' post'. c # cs = pre' @ v' @ post' \<and> v' \<in> lang version_re \<longrightarrow>
           length (c # pre) < length pre' \<or> (length pre' = length (c # pre) \<and> length v' \<le> length v)"
    proof (intro allI impI)
      fix pre' v' post'
      assume a: "c # cs = pre' @ v' @ post' \<and> v' \<in> lang version_re"
      show "length (c # pre) < length pre' \<or> (length pre' = length (c # pre) \<and> length v' \<le> length v)"
      proof (cases pre')
        case Nil
        with a have "c # cs = v' @ post'" by simp
        from match_here_None [OF None this] a show ?thesis by simp
      next
        case (Cons p ps)
        with a have "cs = ps @ v' @ post'" by simp
        from least [OF this] a show ?thesis using Cons by auto
      qed
    qed
    moreover have "c # cs = (c # pre) @ v @ post" using pp(1) by simp
    ultimately show ?thesis unfolding first_match_def using pp(2) by blast
  qed
qed

lemma extractVersion_first:
  "case extractVersion s of
     None \<Rightarrow> no_match version_re s
   | Some v \<Rightarrow> first_match version_re s v"
proof (cases "extractVersion s")
  case None
  then have "match_first s = None" by (cases s) (auto simp: extractVersion_def)
  then show ?thesis using None by (simp add: match_first_None)
next
  case (Some v)
  then have "match_first s = Some v" by (auto simp: extractVersion_def split: if_splits)
  then show ?thesis using Some by (simp add: match_first_Some)
qed

lemma extractVersion_nonempty: "extractVersion s \<noteq> Some []"
  using extractVersion_first [of s] nil_notin_version
  by (auto simp: first_match_def split: option.splits)

subsection \<open>A resolved path is never the empty string\<close>

lemma resolveCommandPath_nonempty: "resolveCommandPath env cmd \<noteq> Some []"
proof
  assume a: "resolveCommandPath env cmd = Some []"
  define resolver where "resolver = (if platform env = ''win32'' then ''where'' else ''which'')"
  from a obtain result where res: "execFileSync env resolver [cmd] = Some result"
    by (cases "execFileSync env resolver [cmd]")
       (simp_all add: resolveCommandPath_def resolver_def)
  define ls where "ls = filter (\<lambda>l. l \<noteq> []) (map trim (split_lines [] result))"
  have eq: "resolveCommandPath env cmd = (case ls of [] \<Rightarrow> None | l # _ \<Rightarrow> Some l)"
    using res unfolding resolveCommandPath_def ls_def resolver_def by simp
  from a eq obtain rest where "ls = [] # rest"
    by (cases ls) simp_all
  then have "[] \<in> set ls" by simp
  then show False unfolding ls_def by simp
qed

lemma runCommand_resolvedPath:
  "runCommand env cmd argv ms = Some r \<Longrightarrow> resolvedPath r = resolveCommandPath env cmd"
  by (auto simp: runCommand_def Let_def split: child_outcome.splits)

lemma runCommand_path_nonempty:
  "runCommand env cmd argv ms = Some r \<Longrightarrow> resolvedPath r \<noteq> Some []"
  using runCommand_resolvedPath [of env cmd argv ms r] resolveCommandPath_nonempty [of env cmd]
  by simp

lemma runCommandViaShell_cases:
  assumes "runCommandViaShell env cmd argv ms = Some r"
  shows "\<exists>r0. runCommand env (user_shell env) (shellArgs env cmd argv) ms = Some r0 \<and>
           r = (if status r0 = Some 127
                then r0\<lparr>command := cmd, success := False, resolvedPath := None,
                       status := None, error := Some (not_found_error cmd)\<rparr>
                else r0\<lparr>command := cmd\<rparr>)"
proof (cases "runCommand env (user_shell env) (shellArgs env cmd argv) ms")
  case None
  with assms show ?thesis by (simp add: runCommandViaShell_def)
next
  case (Some r0)
  with assms show ?thesis by (simp add: runCommandViaShell_def split: if_splits)
qed

lemma runCommandViaShell_path_nonempty:
  assumes "runCommandViaShell env cmd argv ms = Some r"
  shows "resolvedPath r \<noteq> Some []"
proof -
  from runCommandViaShell_cases [OF assms] obtain r0 where
    r0: "runCommand env (user_shell env) (shellArgs env cmd argv) ms = Some r0"
    and r: "r = (if status r0 = Some 127
                then r0\<lparr>command := cmd, success := False, resolvedPath := None,
                       status := None, error := Some (not_found_error cmd)\<rparr>
                else r0\<lparr>command := cmd\<rparr>)"
    by blast
  show ?thesis
  proof (cases "status r0 = Some 127")
    case True
    with r have "resolvedPath r = None" by simp
    then show ?thesis by simp
  next
    case False
    with r have "resolvedPath r = resolvedPath r0" by simp
    with runCommand_path_nonempty [OF r0] show ?thesis by simp
  qed
qed

lemma tryCommands_loop_path_nonempty:
  "tryCommands_loop env cmds argv ms lastCommand = Some r \<Longrightarrow> resolvedPath r \<noteq> Some []"
proof (induction cmds)
  case Nil
  then show ?case by (simp add: runCommandViaShell_path_nonempty)
next
  case (Cons c cs)
  show ?case
  proof (cases "runCommand env c argv ms")
    case None
    with Cons.prems show ?thesis by simp
  next
    case (Some r0)
    show ?thesis
    proof (cases "success r0 \<or> (case error r0 of None \<Rightarrow> False | Some e \<Rightarrow> code e \<noteq> Some ''ENOENT'')")
      case True
      with Cons.prems Some have "r = r0" by (auto split: if_splits)
      with runCommand_path_nonempty [OF Some] show ?thesis by simp
    next
      case False
      with Cons.prems Some have "tryCommands_loop env cs argv ms lastCommand = Some r" by simp
      then show ?thesis by (rule Cons.IH)
    qed
  qed
qed

lemma tryCommands_path_nonempty:
  "tryCommands env d ms = Some r \<Longrightarrow> resolvedPath r \<noteq> Some []"
  unfolding tryCommands_def by (rule tryCommands_loop_path_nonempty)

lemma truthy_path: "p \<noteq> Some [] \<Longrightarrow> truthy p \<longleftrightarrow> p \<noteq> None"
  by (cases p) (auto simp: truthy_def)

lemma resolveStatus_policy:
  "statusResolver d = None \<Longrightarrow> resolvedPath r \<noteq> Some [] \<Longrightarrow> resolveStatus d r = status_policy r"
  by (simp add: resolveStatus_def status_policy_def truthy_path)

subsection \<open>The probe and the cascade\<close>

lemma or_else_version:
  "or_else (extractVersion out) (extractVersion err) =
     (case extractVersion out of Some v \<Rightarrow> Some v | None \<Rightarrow> extractVersion err)"
  using extractVersion_nonempty [of out]
  by (cases "extractVersion out") (auto simp: or_else_def truthy_def)

lemma version_of_outputs:
  "case or_else (extractVersion out) (extractVersion err) of
     Some v \<Rightarrow> first_match version_re out v
               \<or> (no_match version_re out \<and> first_match version_re err v)
   | None \<Rightarrow> no_match version_re out \<and> no_match version_re err"
  using extractVersion_first [of out] extractVersion_first [of err]
  unfolding or_else_version by (auto split: option.splits)

lemma extractVersion_v231: "extractVersion ''v2.3.1'' = Some ''2.3.1''"
  by (simp add: extractVersion_def match_here_def is_digit_def)

lemma runCommand_close:
  assumes "spawn_child env (resolveCommandPath env cmd) cmd argv ms
             = CloseEvent exit_code out err didTimeout"
  shows "runCommand env cmd argv ms =
     Some \<lparr>command = Some cmd,
           success = (\<not> didTimeout \<and> exit_code = Some 0),
           error = (if didTimeout
                    then Some \<lparr>message = ''Command timeout'', code = None\<rparr> else None),
           stdout = out, stderr = err, status = exit_code,
           version = or_else (extractVersion out) (extractVersion err),
           resolvedPath = resolveCommandPath env cmd, timedOut = didTimeout, timeoutMs = ms\<rparr>"
  using assms by (simp add: runCommand_def)

lemma runCommand_enoent:
  assumes "resolveCommandPath env c = None"
    and "spawn_child env None c argv ms = ErrorEvent e out err didTimeout"
  shows "runCommand env c argv ms =
     Some \<lparr>command = Some c, success = False, error = Some e, stdout = out, stderr = err,
           status = None, version = None, resolvedPath = None, timedOut = didTimeout,
           timeoutMs = ms\<rparr>"
  using assms by (simp add: runCommand_def)

lemma tryCommands_loop_skip:
  assumes "\<forall>x\<in>set pre. \<exists>r. runCommand env x argv ms = Some r \<and> \<not> success r
             \<and> (case error r of None \<Rightarrow> True | Some e \<Rightarrow> code e = Some ''ENOENT'')"
  shows "tryCommands_loop env (pre @ rest) argv ms l = tryCommands_loop env rest argv ms l"
  using assms
proof (induction pre)
  case Nil
  then show ?case by simp
next
  case (Cons x xs)
  from Cons.prems obtain r where r: "runCommand env x argv ms = Some r" "\<not> success r"
     "case error r of None \<Rightarrow> True | Some e \<Rightarrow> code e = Some ''ENOENT''"
    by auto
  from r(3) have "\<not> (case error r of None \<Rightarrow> False | Some e \<Rightarrow> code e \<noteq> Some ''ENOENT'')"
    by (cases "error r") simp_all
  with r(1,2) have "tryCommands_loop env ((x # xs) @ rest) argv ms l
      = tryCommands_loop env (xs @ rest) argv ms l" by simp
  also have "\<dots> = tryCommands_loop env rest argv ms l"
    using Cons.IH Cons.prems by simp
  finally show ?case .
qed

lemma tryCommands_loop_stop:
  assumes "runCommand env c argv ms = Some r"
    and "success r \<or> (\<exists>e. error r = Some e \<and> code e \<noteq> Some ''ENOENT'')"
  shows "tryCommands_loop env (c # post) argv ms l = Some r"
proof (cases "success r")
  case True
  with assms(1) show ?thesis by simp
next
  case False
  with assms(2) obtain e where "error r = Some e" "code e \<noteq> Some ''ENOENT''" by blast
  with assms(1) False show ?thesis by simp
qed

subsection \<open>What a completed check changes\<close>

lemma cacheStatus_fields:
  "timeoutRetryPending (cacheStatus wins now s pid r sc) = timeoutRetryPending s"
  "timeoutRetryTimers (cacheStatus wins now s pid r sc) = timeoutRetryTimers s"
  "timers (cacheStatus wins now s pid r sc) = timers s"
  "next_handle (cacheStatus wins now s pid r sc) = next_handle s"
  "suspended (cacheStatus wins now s pid r sc) = suspended s"
  "providerStatusCache (cacheStatus wins now s pid r sc) =
     (providerStatusCache s)(pid \<mapsto> \<lparr>installed = (sc = Connected), path = resolvedPath r,
                                       ps_version = version r, lastChecked = now\<rparr>)"
  "delivered (cacheStatus wins now s pid r sc) =
     delivered s @ map (\<lambda>w. (win_id w, ''provider:status-updated'', pid,
                         \<lparr>installed = (sc = Connected), path = resolvedPath r,
                          ps_version = version r, lastChecked = now\<rparr>))
                       (filter (\<lambda>w. \<not> send_throws w) wins)"
  by (simp_all add: cacheStatus_def emitStatusUpdate_def Let_def)

lemma resume_timers:
  "timers (checkProvider_resume wins now s c r) =
     (if shouldRetryTimeout c r \<and> inv_providerId c \<notin> timeoutRetryPending s
      then timers s @ [\<lparr>handle = next_handle s, providerId = inv_providerId c,
                        retryTimeoutMs = max (inv_timeoutMs c * 2) 12000\<rparr>]
      else timers s)"
  by (simp add: checkProvider_resume_def Let_def cacheStatus_fields setTimeout_def)

lemma resume_store:
  "providerStatusCache (checkProvider_resume wins now s c r) =
     (providerStatusCache s)(def_id (inv_def c) \<mapsto>
        \<lparr>installed = (resolveStatus (inv_def c) r = Connected), path = resolvedPath r,
         ps_version = version r, lastChecked = now\<rparr>)"
  by (simp add: checkProvider_resume_def Let_def cacheStatus_fields setTimeout_def)

lemma resume_delivered:
  "delivered (checkProvider_resume wins now s c r) =
     delivered s @ map (\<lambda>w. (win_id w, ''provider:status-updated'', def_id (inv_def c),
                         \<lparr>installed = (resolveStatus (inv_def c) r = Connected),
                          path = resolvedPath r, ps_version = version r, lastChecked = now\<rparr>))
                       (filter (\<lambda>w. \<not> send_throws w) wins)"
  by (simp add: checkProvider_resume_def Let_def cacheStatus_fields setTimeout_def)

lemma step_Settle:
  assumes "k < length (suspended s)"
    and "tryCommands env (inv_def (suspended s ! k)) (inv_timeoutMs (suspended s ! k)) = Some r"
  shows "step defs s (Settle k env wins now) =
     checkProvider_resume wins now
       (s\<lparr>suspended := take k (suspended s) @ drop (Suc k) (suspended s)\<rparr>) (suspended s ! k) r"
  using assms by (simp add: step_def Let_def)

lemma shouldRetryTimeout_iff:
  assumes "resolvedPath r \<noteq> Some []"
  shows "shouldRetryTimeout c r \<longleftrightarrow>
     timedOut r \<and> (resolvedPath r \<noteq> None \<or> stdout r \<noteq> [])
     \<and> (\<forall>op. inv_opts c = Some op \<longrightarrow> allowRetry op \<noteq> Some False)"
  using assms by (cases "inv_opts c") (simp_all add: shouldRetryTimeout_def truthy_path)

lemma fire_suspended:
  assumes "find (\<lambda>d. def_id d = providerId t) defs = Some d"
  shows "suspended (fire defs s t) = suspended s @
     [\<lparr>inv_def = d, inv_providerId = providerId t, inv_reason = TimeoutRetry,
       inv_opts = Some \<lparr>opts_timeoutMs = Some (retryTimeoutMs t), allowRetry = Some False\<rparr>,
       inv_timeoutMs = retryTimeoutMs t, from_timer = True\<rparr>]"
  using assms by (simp add: fire_def checkProvider_begin_def Let_def)

lemma step_Fire:
  assumes "find (\<lambda>u. handle u = h) (timers s) = Some t"
  shows "step defs s (Fire h) = fire defs s t"
  using assms by (simp add: step_def)

lemma resume_pending:
  "timeoutRetryPending (checkProvider_resume wins now s c r) =
     (let P = (if shouldRetryTimeout c r \<and> inv_providerId c \<notin> timeoutRetryPending s
               then insert (inv_providerId c) (timeoutRetryPending s)
               else timeoutRetryPending s)
      in if from_timer c then P - {inv_providerId c} else P)"
  by (simp add: checkProvider_resume_def Let_def cacheStatus_fields setTimeout_def)

lemma resume_map:
  "timeoutRetryTimers (checkProvider_resume wins now s c r) =
     (if shouldRetryTimeout c r \<and> inv_providerId c \<notin> timeoutRetryPending s
      then (timeoutRetryTimers s)(inv_providerId c \<mapsto> next_handle s)
      else timeoutRetryTimers s)"
  by (simp add: checkProvider_resume_def Let_def cacheStatus_fields setTimeout_def)

lemma resume_next_handle:
  "next_handle (checkProvider_resume wins now s c r) =
     (if shouldRetryTimeout c r \<and> inv_providerId c \<notin> timeoutRetryPending s
      then Suc (next_handle s) else next_handle s)"
  by (simp add: checkProvider_resume_def Let_def cacheStatus_fields setTimeout_def)

lemma fire_state:
  assumes "find (\<lambda>d. def_id d = providerId t) defs = Some d"
  shows "timers (fire defs s t) = filter (\<lambda>u. handle u \<noteq> handle t) (timers s)"
    and "timeoutRetryTimers (fire defs s t) = (timeoutRetryTimers s)(providerId t := None)"
    and "timeoutRetryPending (fire defs s t) = timeoutRetryPending s"
  using assms by (simp_all add: fire_def checkProvider_begin_def Let_def)

lemma settle_while_pending:
  assumes "k < length (suspended s)"
    and "inv_providerId (suspended s ! k) \<in> timeoutRetryPending s"
  shows "timers (step defs s (Settle k env wins now)) = timers s"
proof (cases "tryCommands env (inv_def (suspended s ! k)) (inv_timeoutMs (suspended s ! k))")
  case None
  with assms(1) show ?thesis by (simp add: step_def Let_def)
next
  case (Some r)
  from step_Settle [OF assms(1) Some]
  have "timers (step defs s (Settle k env wins now)) =
      timers (checkProvider_resume wins now
        (s\<lparr>suspended := take k (suspended s) @ drop (Suc k) (suspended s)\<rparr>) (suspended s ! k) r)"
    by simp
  also have "\<dots> = timers s"
    unfolding resume_timers using assms(2) by simp
  finally show ?thesis .
qed

subsection \<open>The scenarios, evaluated\<close>

lemma claude_def_sel:
  "def_id claude_def = ''claude''" "statusResolver claude_def = None"
  by (simp_all add: claude_def_def)

lemmas service_defs =
  step_def checkProvider_begin_def checkProvider_resume_def cacheStatus_def
  emitStatusUpdate_def setTimeout_def clearTimeoutRetry_def clearTimeout_def fire_def
  shouldRetryTimeout_def resolveStatus_def truthy_def Let_def DEFAULT_TIMEOUT_MS_def

lemma posix_which_shell:
  "resolveCommandPath (posix_env tool direct via_shell) ''/bin/zsh'' = Some ''/bin/zsh''"
  by (simp add: resolveCommandPath_def posix_env_def trim_def is_space_def)

lemma posix_which_tool_None:
  "resolveCommandPath (posix_env None direct via_shell) ''claude'' = None"
  by (simp add: resolveCommandPath_def posix_env_def)

lemma posix_which_tool:
  "resolveCommandPath (posix_env (Some tool_path) direct via_shell) ''claude'' = Some tool_path"
  by (simp add: resolveCommandPath_def posix_env_def trim_def is_space_def tool_path_def)

lemma posix_user_shell: "user_shell (posix_env tool direct via_shell) = ''/bin/zsh''"
  by (simp add: user_shell_def posix_env_def or_default_def)

lemma posix_spawn_child_shell:
  "spawn_child (posix_env tool direct via_shell) rp ''/bin/zsh'' argv ms = via_shell"
  by (simp add: spawn_child_def posix_env_def Let_def)

lemma posix_spawn_child_tool:
  "spawn_child (posix_env tool direct via_shell) rp ''claude'' argv ms = direct"
  by (simp add: spawn_child_def posix_env_def Let_def)

lemma posix_other_run:
  "runCommand (posix_env tool direct via_shell) ''claude-code'' argv ms =
     Some \<lparr>command = Some ''claude-code'', success = False, error = Some enoent, stdout = [],
           stderr = [], status = None, version = None, resolvedPath = None, timedOut = False,
           timeoutMs = ms\<rparr>"
proof -
  have w: "resolveCommandPath (posix_env tool direct via_shell) ''claude-code'' = None"
    by (simp add: resolveCommandPath_def posix_env_def)
  have s: "spawn_child (posix_env tool direct via_shell) None ''claude-code'' argv ms
             = ErrorEvent enoent [] [] False"
    by (simp add: spawn_child_def posix_env_def Let_def)
  show ?thesis unfolding runCommand_def w Let_def s by simp
qed

lemma not_installed_direct:
  "runCommand not_installed_env ''claude'' argv ms =
     Some \<lparr>command = Some ''claude'', success = False, error = Some enoent, stdout = [],
           stderr = [], status = None, version = None, resolvedPath = None, timedOut = False,
           timeoutMs = ms\<rparr>"
  unfolding not_installed_env_def runCommand_def posix_which_tool_None posix_spawn_child_tool
  by simp

lemma not_installed_shell:
  "runCommand not_installed_env ''/bin/zsh'' argv ms =
     Some \<lparr>command = Some ''/bin/zsh'', success = False, error = None, stdout = [],
           stderr = ''zsh:1: command not found: claude'', status = Some 127, version = None,
           resolvedPath = Some ''/bin/zsh'', timedOut = False, timeoutMs = ms\<rparr>"
  unfolding not_installed_env_def runCommand_def posix_which_shell posix_spawn_child_shell
  by (simp add: or_else_def truthy_def extractVersion_def match_here_def is_digit_def)

lemma not_installed_try_record:
  "tryCommands not_installed_env claude_def 3000 =
     Some \<lparr>command = Some ''claude'', success = False,
           error = Some (not_found_error (Some ''claude'')), stdout = [],
           stderr = ''zsh:1: command not found: claude'', status = None, version = None,
           resolvedPath = None, timedOut = False, timeoutMs = 3000\<rparr>"
proof -
  have u: "user_shell not_installed_env = ''/bin/zsh''"
    unfolding not_installed_env_def by (rule posix_user_shell)
  show ?thesis
    unfolding tryCommands_def
    by (simp add: claude_def_def not_installed_direct enoent_def runCommandViaShell_def u
          not_installed_shell)
qed

lemma not_installed_try:
  "tryCommands not_installed_env claude_def 3000 = Some not_installed_result"
  unfolding not_installed_result_def by (rule not_installed_try_record)

lemma ok_env_run: "runCommand ok_env ''claude'' argv ms = Some (ok_result ms)"
  unfolding ok_env_def runCommand_def posix_which_tool posix_spawn_child_tool
  by (simp add: ok_result_def or_else_def truthy_def extractVersion_v231)

lemma slow_env_run: "runCommand slow_env ''claude'' argv ms = Some (slow_result ms)"
  unfolding slow_env_def runCommand_def posix_which_tool posix_spawn_child_tool
  by (simp add: slow_result_def or_else_def truthy_def extractVersion_def match_here_def
        is_digit_def)

lemma ok_env_try: "tryCommands ok_env claude_def ms = Some (ok_result ms)"
  unfolding tryCommands_def
  by (simp add: claude_def_def ok_env_run) (simp add: ok_result_def)

lemma slow_env_try: "tryCommands slow_env claude_def ms = Some (slow_result ms)"
  unfolding tryCommands_def
  by (simp add: claude_def_def slow_env_run) (simp add: slow_result_def)

lemma shell_127_shell:
  "runCommand shell_127_env ''/bin/zsh'' argv ms =
     Some \<lparr>command = Some ''/bin/zsh'', success = False, error = None, stdout = [],
           stderr = ''zsh:1: command not found: --version'', status = Some 127, version = None,
           resolvedPath = Some ''/bin/zsh'', timedOut = False, timeoutMs = ms\<rparr>"
  unfolding shell_127_env_def runCommand_def posix_which_shell posix_spawn_child_shell
  by (simp add: or_else_def truthy_def extractVersion_def match_here_def is_digit_def)

lemma shell_127_try:
  "tryCommands shell_127_env no_commands_def 3000 =
     Some \<lparr>command = None, success = False, error = Some (not_found_error None), stdout = [],
           stderr = ''zsh:1: command not found: --version'', status = None, version = None,
           resolvedPath = None, timedOut = False, timeoutMs = 3000\<rparr>"
proof -
  have u: "user_shell shell_127_env = ''/bin/zsh''"
    unfolding shell_127_env_def by (rule posix_user_shell)
  show ?thesis
    unfolding tryCommands_def
    by (simp add: no_commands_def_def claude_def_def runCommandViaShell_def u shell_127_shell)
qed

lemma windows_which_shell: "resolveCommandPath windows_env ''cmd.exe'' = Some cmd_exe_path"
  by (simp add: resolveCommandPath_def windows_env_def trim_def is_space_def cmd_exe_path_def)

lemma windows_user_shell: "user_shell windows_env = ''cmd.exe''"
  by (simp add: user_shell_def windows_env_def or_default_def)

lemma cmd_exe_not_script:
  "\<not> endsWith (toLowerCase cmd_exe_path) ''.cmd''" "\<not> endsWith (toLowerCase cmd_exe_path) ''.bat''"
  by (simp_all add: endsWith_def toLowerCase_def cmd_exe_path_def)

lemma windows_shell_args: "shellArgs windows_env None [''--version''] = [''/c'', '' --version'']"
  by (simp add: shellArgs_def windows_env_def)

lemma windows_spawn_shell:
  "spawn_child windows_env (Some cmd_exe_path) ''cmd.exe'' argv ms =
     CloseEvent (Some 1) [] ''is not recognized as a command'' False"
proof -
  have "or_default (Some cmd_exe_path) ''cmd.exe'' = cmd_exe_path"
    by (simp add: or_default_def cmd_exe_path_def)
  then show ?thesis
    unfolding spawn_child_def Let_def by (simp add: cmd_exe_not_script) (simp add: windows_env_def)
qed

lemma windows_try:
  "tryCommands windows_env no_commands_def 3000 =
     Some \<lparr>command = None, success = False, error = None, stdout = [],
           stderr = ''is not recognized as a command'', status = Some 1, version = None,
           resolvedPath = Some cmd_exe_path, timedOut = False, timeoutMs = 3000\<rparr>"
proof -
  have r: "runCommand windows_env ''cmd.exe'' [''/c'', '' --version''] 3000 =
     Some \<lparr>command = Some ''cmd.exe'', success = False, error = None, stdout = [],
           stderr = ''is not recognized as a command'', status = Some 1, version = None,
           resolvedPath = Some cmd_exe_path, timedOut = False, timeoutMs = 3000\<rparr>"
    unfolding runCommand_def windows_which_shell Let_def windows_spawn_shell
    by (simp add: or_else_def truthy_def extractVersion_def match_here_def is_digit_def)
  show ?thesis
    unfolding tryCommands_def
    by (simp add: no_commands_def_def claude_def_def runCommandViaShell_def windows_user_shell
          windows_shell_args r)
qed

lemma called_state:
  "run [claude_def] init [Call ''claude'' Manual None] =
     init\<lparr>suspended := [\<lparr>inv_def = claude_def, inv_providerId = ''claude'', inv_reason = Manual,
                           inv_opts = None, inv_timeoutMs = 3000, from_timer = False\<rparr>]\<rparr>"
  by (simp add: run_def init_def service_defs claude_def_sel)

section \<open>The claims\<close>

subsection \<open>C1: the ordered classification policy\<close>

text \<open>
  Claim C1. For a provider definition without a status resolver the classifier follows
  the ordered policy \<^const>\<open>status_policy\<close>: success gives connected; else a resolved path
  gives connected; else a timed-out probe with non-empty stdout gives connected; else an
  exit code, no timeout and output on stdout or stderr give connected; otherwise error
  when an error object is attached, else missing. In particular a successful result is
  always connected, and a timed-out result with non-empty stdout is connected, never
  error.

  The code tests the resolved path for truthiness, the policy asks for a path that is
  not null. The two agree on every Command Result whose path is not the empty string,
  and the resolver never returns the empty string (\<open>resolveCommandPath_nonempty\<close>), so
  they agree on every result that the probe cascade delivers.
\<close>

theorem status_classifier_policy:
  assumes "statusResolver d = None"
  shows "(success r \<longrightarrow> resolveStatus d r = Connected)
       \<and> (timedOut r \<and> stdout r \<noteq> [] \<longrightarrow> resolveStatus d r = Connected \<and> resolveStatus d r \<noteq> Error)
       \<and> (resolvedPath r \<noteq> Some [] \<longrightarrow> resolveStatus d r = status_policy r)
       \<and> (tryCommands env d ms = Some r \<longrightarrow> resolveStatus d r = status_policy r)"
proof (intro conjI impI)
  show "resolveStatus d r = Connected" if "success r"
    using assms that by (simp add: resolveStatus_def)
  show "resolveStatus d r = Connected" if "timedOut r \<and> stdout r \<noteq> []"
    using assms that by (simp add: resolveStatus_def)
  then show "resolveStatus d r \<noteq> Error" if "timedOut r \<and> stdout r \<noteq> []"
    using that by simp
  show "resolveStatus d r = status_policy r" if "resolvedPath r \<noteq> Some []"
    using assms that by (rule resolveStatus_policy)
  show "resolveStatus d r = status_policy r" if "tryCommands env d ms = Some r"
    using assms tryCommands_path_nonempty [OF that] by (rule resolveStatus_policy)
qed

text \<open>
  The theorem at the result of a probe killed by the timeout after writing
  \<^verbatim>\<open>Loading...\<close>, and at the result of a successful probe.
\<close>

theorem status_classifier_policy_witness:
  "statusResolver claude_def = None
   \<and> tryCommands slow_env claude_def 3000 = Some (slow_result 3000)
   \<and> timedOut (slow_result 3000) \<and> stdout (slow_result 3000) \<noteq> []
   \<and> resolvedPath (slow_result 3000) \<noteq> Some []
   \<and> resolveStatus claude_def (slow_result 3000) = Connected
   \<and> resolveStatus claude_def (slow_result 3000) = status_policy (slow_result 3000)
   \<and> success (ok_result 3000)
   \<and> resolveStatus claude_def (ok_result 3000) = Connected"
proof -
  have h: "statusResolver claude_def = None" by (simp add: claude_def_sel)
  have a: "timedOut (slow_result 3000) \<and> stdout (slow_result 3000) \<noteq> []"
    by (simp add: slow_result_def)
  have b: "resolvedPath (slow_result 3000) \<noteq> Some []"
    by (simp add: slow_result_def tool_path_def)
  have c: "success (ok_result 3000)" by (simp add: ok_result_def)
  note slow = status_classifier_policy [OF h, of "slow_result 3000" slow_env 3000]
  note ok = status_classifier_policy [OF h, of "ok_result 3000" ok_env 3000]
  from slow a have 1: "resolveStatus claude_def (slow_result 3000) = Connected" by blast
  from slow b have 2: "resolveStatus claude_def (slow_result 3000) = status_policy (slow_result 3000)"
    by blast
  from ok c have 3: "resolveStatus claude_def (ok_result 3000) = Connected" by blast
  from a have a1: "timedOut (slow_result 3000)" and a2: "stdout (slow_result 3000) \<noteq> []"
    by simp_all
  show ?thesis by (intro conjI h slow_env_try a1 a2 b 1 2 c 3)
qed

subsection \<open>C2: a provider without commands\<close>

text \<open>
  Claim C2 says that a provider with an empty command list is classified as missing,
  with no resolved path. The code does otherwise: with no candidate the loop of
  \<^verbatim>\<open>tryCommands\<close> is skipped, the element at index \<^verbatim>\<open>length - 1\<close> of the empty list is
  \<^verbatim>\<open>undefined\<close>, and the shell fallback runs the login shell on the line made of an empty
  word and the arguments. Where the shell answers with exit code 127 the attached
  error makes the classification error; where it answers with another code, as
  \<^verbatim>\<open>cmd.exe\<close> does, the shell's own resolved path makes the provider connected, and that
  path is stored as the provider's.
\<close>

theorem empty_command_list_probe:
  "commands no_commands_def = []
   \<and> probe_status shell_127_env no_commands_def 3000 = Some Error
   \<and> probe_status shell_127_env no_commands_def 3000 \<noteq> Some Missing
   \<and> probe_status windows_env no_commands_def 3000 = Some Connected
   \<and> map_option resolvedPath (tryCommands windows_env no_commands_def 3000)
        = Some (Some cmd_exe_path)
   \<and> providerStatusCache
        (run [no_commands_def] init [Call ''claude'' Manual None, Settle 0 windows_env [] 0])
        ''claude''
      = Some \<lparr>installed = True, path = Some cmd_exe_path, ps_version = None, lastChecked = 0\<rparr>"
proof -
  have sel: "def_id no_commands_def = ''claude''" "statusResolver no_commands_def = None"
    "commands no_commands_def = []"
    by (simp_all add: no_commands_def_def claude_def_def)
  have p: "cmd_exe_path \<noteq> []" by (simp add: cmd_exe_path_def)
  have 1: "probe_status shell_127_env no_commands_def 3000 = Some Error"
    unfolding probe_status_def shell_127_try
    by (simp add: resolveStatus_def sel truthy_def)
  have 2: "probe_status windows_env no_commands_def 3000 = Some Connected"
    unfolding probe_status_def windows_try
    by (simp add: resolveStatus_def sel truthy_def p)
  have 3: "map_option resolvedPath (tryCommands windows_env no_commands_def 3000)
        = Some (Some cmd_exe_path)"
    unfolding windows_try by simp
  have 4: "providerStatusCache
        (run [no_commands_def] init [Call ''claude'' Manual None, Settle 0 windows_env [] 0])
        ''claude''
      = Some \<lparr>installed = True, path = Some cmd_exe_path, ps_version = None, lastChecked = 0\<rparr>"
    by (simp add: run_def init_def service_defs sel windows_try p)
  from 1 have 5: "probe_status shell_127_env no_commands_def 3000 \<noteq> Some Missing" by simp
  show ?thesis by (intro conjI sel(3) 1 5 2 3 4)
qed

subsection \<open>C3: a probe that is not found on PATH\<close>

text \<open>
  Claim C3, amended. Let a provider have no resolvers, an id other than \<^verbatim>\<open>codex\<close> and at
  least one command; let path resolution return null for every candidate and every
  spawn fail with the code \<^verbatim>\<open>ENOENT\<close>; let the shell of the fallback exit with code 127.
  Then the cascade delivers a result without resolved path whose classification is
  error, not missing, because the fallback attaches its "command not found" error
  (it is connected if the shell run was also flagged as timed out with non-empty
  stdout). For the classification error the message is the first non-blank of the
  shell's stderr and stdout, trimmed, and else the attached error's message
  \<^verbatim>\<open><command>: command not found (shell fallback)\<close>.
\<close>

theorem not_found_classification:
  assumes "statusResolver d = None" and "messageResolver d = None" and "def_id d \<noteq> ''codex''"
    and "commands d \<noteq> []"
    and "\<forall>c\<in>set (commands d). resolveCommandPath env c = None
           \<and> (\<exists>e out' err' t'. spawn_child env None c (args d) ms = ErrorEvent e out' err' t'
                 \<and> code e = Some ''ENOENT'')"
    and "spawn_child env (resolveCommandPath env (user_shell env)) (user_shell env)
           (shellArgs env (Some (last (commands d))) (args d)) ms
         = CloseEvent (Some 127) out err didTimeout"
  shows "\<exists>r. tryCommands env d ms = Some r \<and> resolvedPath r = None
     \<and> resolveStatus d r \<noteq> Missing
     \<and> resolveStatus d r = (if didTimeout \<and> out \<noteq> [] then Connected else Error)
     \<and> (\<not> (didTimeout \<and> out \<noteq> []) \<longrightarrow>
          resolveMessage d r (resolveStatus d r) =
            Some (if trim err \<noteq> [] then trim err
                  else if trim out \<noteq> [] then trim out
                  else last (commands d) @ '': command not found (shell fallback)''))"
proof -
  have skip: "\<forall>x\<in>set (commands d). \<exists>r'. runCommand env x (args d) ms = Some r' \<and> \<not> success r'
                \<and> (case error r' of None \<Rightarrow> True | Some e \<Rightarrow> code e = Some ''ENOENT'')"
  proof
    fix x assume "x \<in> set (commands d)"
    with assms(5) obtain e out' err' t' where
      x: "resolveCommandPath env x = None"
         "spawn_child env None x (args d) ms = ErrorEvent e out' err' t'" "code e = Some ''ENOENT''"
      by blast
    from runCommand_enoent [OF x(1,2)] x(3)
    show "\<exists>r'. runCommand env x (args d) ms = Some r' \<and> \<not> success r'
                \<and> (case error r' of None \<Rightarrow> True | Some e \<Rightarrow> code e = Some ''ENOENT'')"
      by simp
  qed
  let ?cmd = "Some (last (commands d))"
  have tc: "tryCommands env d ms = runCommandViaShell env ?cmd (args d) ms"
    unfolding tryCommands_def using tryCommands_loop_skip [OF skip, of "[]"] assms(4) by simp
  let ?r0 = "\<lparr>command = Some (user_shell env),
           success = (\<not> didTimeout \<and> Some 127 = Some (0::int)),
           error = (if didTimeout
                    then Some \<lparr>message = ''Command timeout'', code = None\<rparr> else None),
           stdout = out, stderr = err, status = Some 127,
           version = or_else (extractVersion out) (extractVersion err),
           resolvedPath = resolveCommandPath env (user_shell env), timedOut = didTimeout,
           timeoutMs = ms\<rparr>"
  have r0: "runCommand env (user_shell env) (shellArgs env ?cmd (args d)) ms = Some ?r0"
    using assms(6) by (rule runCommand_close)
  let ?r = "?r0\<lparr>command := ?cmd, success := False, resolvedPath := None,
                status := None, error := Some (not_found_error ?cmd)\<rparr>"
  have run: "tryCommands env d ms = Some ?r"
    unfolding tc runCommandViaShell_def r0 by simp
  have 1: "resolvedPath ?r = None" by simp
  have 2: "resolveStatus d ?r = (if didTimeout \<and> out \<noteq> [] then Connected else Error)"
    using assms(1) by (simp add: resolveStatus_def truthy_def)
  then have 3: "resolveStatus d ?r \<noteq> Missing" by simp
  have 4: "\<not> (didTimeout \<and> out \<noteq> []) \<longrightarrow>
          resolveMessage d ?r (resolveStatus d ?r) =
            Some (if trim err \<noteq> [] then trim err
                  else if trim out \<noteq> [] then trim out
                  else last (commands d) @ '': command not found (shell fallback)'')"
    unfolding 2 using assms(2,3) by (simp add: resolveMessage_def not_found_error_def)
  show ?thesis
    by (rule exI [where x = ?r]) (intro conjI run 1 2 3 4)
qed

text \<open>
  The theorem on the machine where \<^verbatim>\<open>claude\<close> is not installed.
\<close>

theorem not_found_classification_witness:
  "\<exists>r. tryCommands not_installed_env claude_def 3000 = Some r \<and> resolvedPath r = None
     \<and> resolveStatus claude_def r = Error
     \<and> resolveMessage claude_def r (resolveStatus claude_def r)
         = Some ''zsh:1: command not found: claude''"
proof -
  have u: "user_shell not_installed_env = ''/bin/zsh''"
    unfolding not_installed_env_def by (rule posix_user_shell)
  have sel: "statusResolver claude_def = None" "messageResolver claude_def = None"
    "def_id claude_def \<noteq> ''codex''" "commands claude_def \<noteq> []"
    by (simp_all add: claude_def_def)
  have cmds: "commands claude_def = [''claude'']" "args claude_def = [''--version'']"
    by (simp_all add: claude_def_def)
  have h5: "\<forall>c\<in>set (commands claude_def). resolveCommandPath not_installed_env c = None
           \<and> (\<exists>e out' err' t'. spawn_child not_installed_env None c (args claude_def) 3000
                  = ErrorEvent e out' err' t' \<and> code e = Some ''ENOENT'')"
  proof -
    have "\<exists>e out' err' t'. spawn_child not_installed_env None ''claude'' [''--version''] 3000
                  = ErrorEvent e out' err' t' \<and> code e = Some ''ENOENT''"
      unfolding not_installed_env_def posix_spawn_child_tool
      by (intro exI [where x = enoent] exI [where x = "[]"] exI [where x = False])
         (simp add: enoent_def)
    moreover have "resolveCommandPath not_installed_env ''claude'' = None"
      unfolding not_installed_env_def by (rule posix_which_tool_None)
    ultimately show ?thesis unfolding cmds by simp
  qed
  have h6: "spawn_child not_installed_env (resolveCommandPath not_installed_env (user_shell not_installed_env))
           (user_shell not_installed_env)
           (shellArgs not_installed_env (Some (last (commands claude_def))) (args claude_def)) 3000
         = CloseEvent (Some 127) [] ''zsh:1: command not found: claude'' False"
    unfolding u unfolding not_installed_env_def by (rule posix_spawn_child_shell)
  from not_found_classification [OF sel h5 h6] obtain r where
    r: "tryCommands not_installed_env claude_def 3000 = Some r \<and> resolvedPath r = None
     \<and> resolveStatus claude_def r \<noteq> Missing
     \<and> resolveStatus claude_def r = (if False \<and> ([]::string) \<noteq> [] then Connected else Error)
     \<and> (\<not> (False \<and> ([]::string) \<noteq> []) \<longrightarrow>
          resolveMessage claude_def r (resolveStatus claude_def r) =
            Some (if trim ''zsh:1: command not found: claude'' \<noteq> []
                  then trim ''zsh:1: command not found: claude''
                  else if trim [] \<noteq> [] then trim []
                  else last (commands claude_def) @ '': command not found (shell fallback)''))"
    by (rule exE)
  from r have r1: "tryCommands not_installed_env claude_def 3000 = Some r"
    and r2: "resolvedPath r = None" by simp_all
  from r have a: "resolveStatus claude_def r = Error" by simp
  from r have b: "resolveMessage claude_def r (resolveStatus claude_def r)
         = Some ''zsh:1: command not found: claude''"
    unfolding a by (simp add: trim_def is_space_def)
  show ?thesis by (intro exI [where x = r] conjI r1 r2 a b)
qed

text \<open>
  The claim as it was stated fails on that machine: the scenario's conditions hold,
  the classification is error and the message is the shell's complaint.
\<close>

theorem not_found_counterexample:
  "resolveCommandPath not_installed_env ''claude'' = None
   \<and> spawn_child not_installed_env None ''claude'' [''--version''] 3000
        = ErrorEvent enoent [] [] False
   \<and> code enoent = Some ''ENOENT''
   \<and> map_option status (runCommand not_installed_env (user_shell not_installed_env)
         (shellArgs not_installed_env (Some ''claude'') [''--version'']) 3000) = Some (Some 127)
   \<and> probe_status not_installed_env claude_def 3000 = Some Error
   \<and> probe_status not_installed_env claude_def 3000 \<noteq> Some Missing
   \<and> probe_message not_installed_env claude_def 3000
        = Some (Some ''zsh:1: command not found: claude'')
   \<and> probe_message not_installed_env claude_def 3000
        \<noteq> Some (Some ''Claude Code was not found in PATH.'')"
proof -
  have u: "user_shell not_installed_env = ''/bin/zsh''"
    unfolding not_installed_env_def by (rule posix_user_shell)
  have 1: "resolveCommandPath not_installed_env ''claude'' = None"
    unfolding not_installed_env_def by (rule posix_which_tool_None)
  have 2: "spawn_child not_installed_env None ''claude'' [''--version''] 3000
        = ErrorEvent enoent [] [] False"
    unfolding not_installed_env_def by (rule posix_spawn_child_tool)
  have 3: "code enoent = Some ''ENOENT''" by (simp add: enoent_def)
  have 4: "map_option status (runCommand not_installed_env (user_shell not_installed_env)
         (shellArgs not_installed_env (Some ''claude'') [''--version'']) 3000) = Some (Some 127)"
    unfolding u not_installed_shell by simp
  have 5: "probe_status not_installed_env claude_def 3000 = Some Error"
    unfolding probe_status_def not_installed_try
    by (simp add: resolveStatus_def claude_def_sel truthy_def not_installed_result_def)
  then have 6: "probe_status not_installed_env claude_def 3000 \<noteq> Some Missing" by simp
  have st: "resolveStatus claude_def not_installed_result = Error"
    by (simp add: resolveStatus_def claude_def_sel truthy_def not_installed_result_def)
  have 7: "probe_message not_installed_env claude_def 3000
        = Some (Some ''zsh:1: command not found: claude'')"
    unfolding probe_message_def not_installed_try
    by (simp add: st) (simp add: resolveMessage_def claude_def_def not_installed_result_def
         trim_def is_space_def)
  then have 8: "probe_message not_installed_env claude_def 3000
        \<noteq> Some (Some ''Claude Code was not found in PATH.'')" by simp
  show ?thesis by (intro conjI 1 2 3 4 5 6 7 8)
qed

subsection \<open>C4: at most one retry timer per provider\<close>

text \<open>
  Claim C4 asks for at most one armed retry timer per provider, and for every check
  with a reason other than \<^verbatim>\<open>timeout-retry\<close> to cancel an armed timer first. The code
  guards the cancellation, and the arming, with the pending flag alone, and the
  \<^verbatim>\<open>finally\<close> of a finished retry clears that flag even when a later check has armed a
  new timer in the meantime. After the run \<^const>\<open>race_prefix\<close> timer 1 is armed while the
  flag is clear, so a manual check that begins then leaves the timer armed; and when
  the second manual check of \<^const>\<open>race_trace\<close> times out, a second timer is armed for
  the same provider.
\<close>

theorem retry_timer_race:
  "map providerId (timers (run [claude_def] init race_trace)) = [''claude'', ''claude'']
   \<and> map handle (timers (run [claude_def] init race_trace)) = [1, 2]
   \<and> map handle (timers (run [claude_def] init race_prefix)) = [1]
   \<and> ''claude'' \<notin> timeoutRetryPending (run [claude_def] init race_prefix)
   \<and> map handle (timers (run [claude_def] init (race_prefix @ [Call ''claude'' Manual None])))
        = [1]"
  by (simp add: run_def race_trace_def race_prefix_def init_def service_defs claude_def_sel
        slow_env_try ok_env_try slow_result_def ok_result_def tool_path_def)

subsection \<open>C5: when a retry is scheduled\<close>

text \<open>
  Claim C5. When the probe cascade of a suspended check delivers its result, a retry
  timer is armed if and only if the probe timed out, it had a resolved path or
  non-empty stdout, the caller did not pass \<^verbatim>\<open>allowRetry = false\<close>, and no retry is
  pending for the provider, that is, the provider is not in \<^verbatim>\<open>timeoutRetryPending\<close>.
  Arming appends one timer, which carries the timeout \<open>max (2 * timeout) 12000\<close>, puts
  the provider into \<^verbatim>\<open>timeoutRetryPending\<close> and records the timer's handle in
  \<^verbatim>\<open>timeoutRetryTimers\<close>; as long as the provider is in that set, no check of the
  provider that completes arms a timer. Without arming, neither collection changes.
  When the timer fires it is consumed and its entry in \<^verbatim>\<open>timeoutRetryTimers\<close> deleted,
  the provider stays pending, and \<^verbatim>\<open>checkProvider\<close> starts again with the reason
  \<^verbatim>\<open>timeout-retry\<close>, that timeout and \<^verbatim>\<open>allowRetry = false\<close>. A check that was called with
  \<^verbatim>\<open>allowRetry = false\<close> arms no timer, so no second retry follows, and the completion
  of the retry takes the provider out of \<^verbatim>\<open>timeoutRetryPending\<close>.

  The set \<^verbatim>\<open>timeoutRetryPending\<close> is what the service consults. How it can fall out of
  step with the timers that are armed, when checks of one provider overlap a running
  retry, is the subject of C4.
\<close>

theorem retry_scheduling:
  assumes "k < length (suspended s)" and "c = suspended s ! k"
    and "tryCommands env (inv_def c) (inv_timeoutMs c) = Some r"
  shows "let s' = step defs s (Settle k env wins now);
             scheduled = (timedOut r \<and> (resolvedPath r \<noteq> None \<or> stdout r \<noteq> [])
                \<and> (\<forall>op. inv_opts c = Some op \<longrightarrow> allowRetry op \<noteq> Some False)
                \<and> inv_providerId c \<notin> timeoutRetryPending s);
             t = \<lparr>handle = next_handle s, providerId = inv_providerId c,
                  retryTimeoutMs = max (2 * inv_timeoutMs c) 12000\<rparr>
         in (timers s' \<noteq> timers s \<longleftrightarrow> scheduled)
          \<and> (scheduled \<longrightarrow> timers s' = timers s @ [t])
          \<and> (find (\<lambda>u. handle u = handle t) (timers s') = Some t
               \<and> find (\<lambda>d. def_id d = providerId t) defs = Some d' \<longrightarrow>
               suspended (step defs s' (Fire (handle t))) = suspended s' @
                 [\<lparr>inv_def = d', inv_providerId = inv_providerId c, inv_reason = TimeoutRetry,
                   inv_opts = Some \<lparr>opts_timeoutMs = Some (max (2 * inv_timeoutMs c) 12000),
                                    allowRetry = Some False\<rparr>,
                   inv_timeoutMs = max (2 * inv_timeoutMs c) 12000, from_timer = True\<rparr>])
          \<and> ((\<exists>op. inv_opts c = Some op \<and> allowRetry op = Some False) \<longrightarrow> timers s' = timers s)
          \<and> (scheduled \<longrightarrow> timeoutRetryTimers s' (inv_providerId c) = Some (handle t)
                \<and> next_handle s' = Suc (next_handle s))
          \<and> (scheduled \<and> \<not> from_timer c \<longrightarrow>
                timeoutRetryPending s' = insert (inv_providerId c) (timeoutRetryPending s))
          \<and> (\<not> scheduled \<longrightarrow> timeoutRetryTimers s' = timeoutRetryTimers s
                \<and> next_handle s' = next_handle s
                \<and> (\<not> from_timer c \<longrightarrow> timeoutRetryPending s' = timeoutRetryPending s))
          \<and> (from_timer c \<longrightarrow>
                timeoutRetryPending s' = timeoutRetryPending s - {inv_providerId c})
          \<and> (inv_providerId c \<in> timeoutRetryPending s' \<longrightarrow>
                (\<forall>k2 env2 wins2 now2.
                   k2 < length (suspended s')
                   \<and> inv_providerId (suspended s' ! k2) = inv_providerId c \<longrightarrow>
                   timers (step defs s' (Settle k2 env2 wins2 now2)) = timers s'))
          \<and> (find (\<lambda>u. handle u = handle t) (timers s') = Some t
               \<and> find (\<lambda>d. def_id d = providerId t) defs = Some d' \<longrightarrow>
               timers (step defs s' (Fire (handle t)))
                 = filter (\<lambda>u. handle u \<noteq> handle t) (timers s')
               \<and> timeoutRetryTimers (step defs s' (Fire (handle t)))
                 = (timeoutRetryTimers s')(inv_providerId c := None)
               \<and> timeoutRetryPending (step defs s' (Fire (handle t))) = timeoutRetryPending s')"
proof -
  define s0 where "s0 = s\<lparr>suspended := take k (suspended s) @ drop (Suc k) (suspended s)\<rparr>"
  define s' where "s' = step defs s (Settle k env wins now)"
  define t where "t = \<lparr>handle = next_handle s, providerId = inv_providerId c,
                  retryTimeoutMs = max (2 * inv_timeoutMs c) 12000\<rparr>"
  define scheduled where "scheduled \<longleftrightarrow> (timedOut r \<and> (resolvedPath r \<noteq> None \<or> stdout r \<noteq> [])
                \<and> (\<forall>op. inv_opts c = Some op \<longrightarrow> allowRetry op \<noteq> Some False)
                \<and> inv_providerId c \<notin> timeoutRetryPending s)"
  have s': "s' = checkProvider_resume wins now s0 c r"
    unfolding s'_def s0_def using assms step_Settle [of k s env r defs wins now] by simp
  have path: "resolvedPath r \<noteq> Some []"
    using assms(3) by (rule tryCommands_path_nonempty)
  have cond: "shouldRetryTimeout c r \<and> inv_providerId c \<notin> timeoutRetryPending s0 \<longleftrightarrow> scheduled"
    unfolding scheduled_def shouldRetryTimeout_iff [OF path] by (simp add: s0_def)
  have tm: "timers s' = (if scheduled then timers s @ [t] else timers s)"
    unfolding s' resume_timers cond by (simp add: s0_def t_def mult.commute)
  have mp: "timeoutRetryTimers s' =
      (if scheduled then (timeoutRetryTimers s)(inv_providerId c \<mapsto> next_handle s)
       else timeoutRetryTimers s)"
    unfolding s' resume_map cond by (simp add: s0_def)
  have nh: "next_handle s' = (if scheduled then Suc (next_handle s) else next_handle s)"
    unfolding s' resume_next_handle cond by (simp add: s0_def)
  have pd: "timeoutRetryPending s' =
      (let P = (if scheduled then insert (inv_providerId c) (timeoutRetryPending s)
                else timeoutRetryPending s)
       in if from_timer c then P - {inv_providerId c} else P)"
    unfolding s' resume_pending cond by (simp add: s0_def)
  have 1: "timers s' \<noteq> timers s \<longleftrightarrow> scheduled" unfolding tm by simp
  have 2: "scheduled \<longrightarrow> timers s' = timers s @ [t]" unfolding tm by simp
  have 3: "find (\<lambda>u. handle u = handle t) (timers s') = Some t
               \<and> find (\<lambda>d. def_id d = providerId t) defs = Some d' \<longrightarrow>
               suspended (step defs s' (Fire (handle t))) = suspended s' @
                 [\<lparr>inv_def = d', inv_providerId = inv_providerId c, inv_reason = TimeoutRetry,
                   inv_opts = Some \<lparr>opts_timeoutMs = Some (max (2 * inv_timeoutMs c) 12000),
                                    allowRetry = Some False\<rparr>,
                   inv_timeoutMs = max (2 * inv_timeoutMs c) 12000, from_timer = True\<rparr>]"
  proof
    assume a: "find (\<lambda>u. handle u = handle t) (timers s') = Some t
               \<and> find (\<lambda>d. def_id d = providerId t) defs = Some d'"
    then have "step defs s' (Fire (handle t)) = fire defs s' t" by (simp add: step_Fire)
    moreover from a have "find (\<lambda>d. def_id d = providerId t) defs = Some d'" by simp
    ultimately show "suspended (step defs s' (Fire (handle t))) = suspended s' @
                 [\<lparr>inv_def = d', inv_providerId = inv_providerId c, inv_reason = TimeoutRetry,
                   inv_opts = Some \<lparr>opts_timeoutMs = Some (max (2 * inv_timeoutMs c) 12000),
                                    allowRetry = Some False\<rparr>,
                   inv_timeoutMs = max (2 * inv_timeoutMs c) 12000, from_timer = True\<rparr>]"
      by (simp add: fire_suspended t_def)
  qed
  have 4: "(\<exists>op. inv_opts c = Some op \<and> allowRetry op = Some False) \<longrightarrow> timers s' = timers s"
    unfolding tm scheduled_def by auto
  have 5: "scheduled \<longrightarrow> timeoutRetryTimers s' (inv_providerId c) = Some (handle t)
                \<and> next_handle s' = Suc (next_handle s)"
    unfolding mp nh by (simp add: t_def)
  have 6: "scheduled \<and> \<not> from_timer c \<longrightarrow>
                timeoutRetryPending s' = insert (inv_providerId c) (timeoutRetryPending s)"
    unfolding pd by simp
  have 7: "\<not> scheduled \<longrightarrow> timeoutRetryTimers s' = timeoutRetryTimers s
                \<and> next_handle s' = next_handle s
                \<and> (\<not> from_timer c \<longrightarrow> timeoutRetryPending s' = timeoutRetryPending s)"
    unfolding mp nh pd by simp
  have 8: "from_timer c \<longrightarrow>
                timeoutRetryPending s' = timeoutRetryPending s - {inv_providerId c}"
    unfolding pd by auto
  have 9: "inv_providerId c \<in> timeoutRetryPending s' \<longrightarrow>
                (\<forall>k2 env2 wins2 now2.
                   k2 < length (suspended s')
                   \<and> inv_providerId (suspended s' ! k2) = inv_providerId c \<longrightarrow>
                   timers (step defs s' (Settle k2 env2 wins2 now2)) = timers s')"
  proof (intro impI allI)
    fix k2 env2 wins2 now2
    assume p: "inv_providerId c \<in> timeoutRetryPending s'"
      and a: "k2 < length (suspended s') \<and> inv_providerId (suspended s' ! k2) = inv_providerId c"
    from a p have "inv_providerId (suspended s' ! k2) \<in> timeoutRetryPending s'" by simp
    with a show "timers (step defs s' (Settle k2 env2 wins2 now2)) = timers s'"
      by (intro settle_while_pending) simp_all
  qed
  have 10: "find (\<lambda>u. handle u = handle t) (timers s') = Some t
               \<and> find (\<lambda>d. def_id d = providerId t) defs = Some d' \<longrightarrow>
               timers (step defs s' (Fire (handle t)))
                 = filter (\<lambda>u. handle u \<noteq> handle t) (timers s')
               \<and> timeoutRetryTimers (step defs s' (Fire (handle t)))
                 = (timeoutRetryTimers s')(inv_providerId c := None)
               \<and> timeoutRetryPending (step defs s' (Fire (handle t))) = timeoutRetryPending s'"
  proof
    assume a: "find (\<lambda>u. handle u = handle t) (timers s') = Some t
               \<and> find (\<lambda>d. def_id d = providerId t) defs = Some d'"
    then have f: "step defs s' (Fire (handle t)) = fire defs s' t" by (simp add: step_Fire)
    from a have d: "find (\<lambda>d. def_id d = providerId t) defs = Some d'" by simp
    have pt: "providerId t = inv_providerId c" by (simp add: t_def)
    show "timers (step defs s' (Fire (handle t)))
                 = filter (\<lambda>u. handle u \<noteq> handle t) (timers s')
               \<and> timeoutRetryTimers (step defs s' (Fire (handle t)))
                 = (timeoutRetryTimers s')(inv_providerId c := None)
               \<and> timeoutRetryPending (step defs s' (Fire (handle t))) = timeoutRetryPending s'"
      unfolding f fire_state [OF d] pt by simp
  qed
  from 1 2 3 4 5 6 7 8 9 10 show ?thesis
    unfolding Let_def s'_def [symmetric] t_def [symmetric] scheduled_def [symmetric]
    by (intro conjI)
qed

text \<open>
  The theorem on a manual check of a tool that is killed by the timeout and on the
  retry it schedules, and on two overlapping manual checks that both time out, of
  which only the first arms a timer.
\<close>

theorem retry_scheduling_witness:
  "timers (run [claude_def] init [Call ''claude'' Manual None, Settle 0 slow_env [] 0])
     = [\<lparr>handle = 0, providerId = ''claude'', retryTimeoutMs = 12000\<rparr>]
   \<and> suspended (run [claude_def] init
         [Call ''claude'' Manual None, Settle 0 slow_env [] 0, Fire 0])
     = [\<lparr>inv_def = claude_def, inv_providerId = ''claude'', inv_reason = TimeoutRetry,
         inv_opts = Some \<lparr>opts_timeoutMs = Some 12000, allowRetry = Some False\<rparr>,
         inv_timeoutMs = 12000, from_timer = True\<rparr>]
   \<and> timers (run [claude_def] init
         [Call ''claude'' Manual None, Settle 0 slow_env [] 0, Fire 0, Settle 0 slow_env [] 1])
     = timers (run [claude_def] init
         [Call ''claude'' Manual None, Settle 0 slow_env [] 0, Fire 0])
   \<and> timeoutRetryPending
         (run [claude_def] init [Call ''claude'' Manual None, Settle 0 slow_env [] 0])
     = {''claude''}
   \<and> timeoutRetryTimers
         (run [claude_def] init [Call ''claude'' Manual None, Settle 0 slow_env [] 0]) ''claude''
     = Some 0
   \<and> timers (run [claude_def] init
         [Call ''claude'' Manual None, Call ''claude'' Manual None,
          Settle 0 slow_env [] 0, Settle 0 slow_env [] 1])
     = [\<lparr>handle = 0, providerId = ''claude'', retryTimeoutMs = 12000\<rparr>]
   \<and> timers (run [claude_def] init
         [Call ''claude'' Manual None, Settle 0 slow_env [] 0, Fire 0]) = []
   \<and> timeoutRetryPending (run [claude_def] init
         [Call ''claude'' Manual None, Settle 0 slow_env [] 0, Fire 0, Settle 0 slow_env [] 1])
     = {}"
proof -
  let ?M = "\<lparr>inv_def = claude_def, inv_providerId = ''claude'',
      inv_reason = Manual, inv_opts = None, inv_timeoutMs = 3000, from_timer = False\<rparr>"
  let ?T = "\<lambda>s c. \<lparr>handle = next_handle s, providerId = inv_providerId c,
               retryTimeoutMs = max (2 * inv_timeoutMs c) 12000\<rparr>"
  define s where "s = run [claude_def] init [Call ''claude'' Manual None]"
  define c where "c = suspended s ! 0"
  have s: "s = init\<lparr>suspended := [?M]\<rparr>"
    unfolding s_def by (rule called_state)
  have c: "c = ?M" unfolding c_def s by simp
  have h1: "0 < length (suspended s)" unfolding s by simp
  have h2: "c = suspended s ! 0" by (simp add: c_def)
  have h3: "tryCommands slow_env (inv_def c) (inv_timeoutMs c) = Some (slow_result 3000)"
    unfolding c by (simp add: slow_env_try)
  define s1 where "s1 = step [claude_def] s (Settle 0 slow_env [] 0)"
  have run1: "run [claude_def] init [Call ''claude'' Manual None, Settle 0 slow_env [] 0] = s1"
    by (simp add: run_def s1_def s_def)
  note first = retry_scheduling [OF h1 h2 h3, where defs = "[claude_def]" and wins = "[]"
      and now = 0 and d' = claude_def, unfolded Let_def, folded s1_def]
  have sched: "timedOut (slow_result 3000)
      \<and> (resolvedPath (slow_result 3000) \<noteq> None \<or> stdout (slow_result 3000) \<noteq> [])
      \<and> (\<forall>op. inv_opts c = Some op \<longrightarrow> allowRetry op \<noteq> Some False)
      \<and> inv_providerId c \<notin> timeoutRetryPending s"
    unfolding c s by (simp add: slow_result_def init_def)
  have nft: "\<not> from_timer c" unfolding c by simp
  from first [THEN conjunct2, THEN conjunct1] sched
  have t1: "timers s1 = timers s @ [?T s c]" by (rule mp)
  then have t1': "timers s1 = [\<lparr>handle = 0, providerId = ''claude'', retryTimeoutMs = 12000\<rparr>]"
    unfolding c s by (simp add: init_def)
  have f: "find (\<lambda>u. handle u = handle (?T s c)) (timers s1) = Some (?T s c)
         \<and> find (\<lambda>d. def_id d = providerId (?T s c)) [claude_def] = Some claude_def"
    unfolding t1 unfolding c s by (simp add: init_def claude_def_sel)
  from first [THEN conjunct2, THEN conjunct2, THEN conjunct1] f
  have "suspended (step [claude_def] s1 (Fire (handle (?T s c)))) = suspended s1 @
      [\<lparr>inv_def = claude_def, inv_providerId = inv_providerId c, inv_reason = TimeoutRetry,
        inv_opts = Some \<lparr>opts_timeoutMs = Some (max (2 * inv_timeoutMs c) 12000),
                         allowRetry = Some False\<rparr>,
        inv_timeoutMs = max (2 * inv_timeoutMs c) 12000, from_timer = True\<rparr>]"
    by (rule mp)
  moreover have sus1: "suspended s1 = []"
    unfolding s1_def s by (simp add: init_def service_defs claude_def_sel slow_env_try)
  ultimately have sus: "suspended (step [claude_def] s1 (Fire 0)) =
      [\<lparr>inv_def = claude_def, inv_providerId = ''claude'', inv_reason = TimeoutRetry,
        inv_opts = Some \<lparr>opts_timeoutMs = Some 12000, allowRetry = Some False\<rparr>,
        inv_timeoutMs = 12000, from_timer = True\<rparr>]"
    unfolding c s by (simp add: init_def)
  from first [THEN conjunct2, THEN conjunct2, THEN conjunct2, THEN conjunct2, THEN conjunct1] sched
  have "timeoutRetryTimers s1 (inv_providerId c) = Some (handle (?T s c))
                \<and> next_handle s1 = Suc (next_handle s)" by (rule mp)
  then have m1: "timeoutRetryTimers s1 ''claude'' = Some 0" and n1: "next_handle s1 = Suc 0"
    unfolding c s by (simp_all add: init_def)
  from sched nft have "(timedOut (slow_result 3000)
      \<and> (resolvedPath (slow_result 3000) \<noteq> None \<or> stdout (slow_result 3000) \<noteq> [])
      \<and> (\<forall>op. inv_opts c = Some op \<longrightarrow> allowRetry op \<noteq> Some False)
      \<and> inv_providerId c \<notin> timeoutRetryPending s) \<and> \<not> from_timer c" by (rule conjI)
  with first [THEN conjunct2, THEN conjunct2, THEN conjunct2, THEN conjunct2, THEN conjunct2,
      THEN conjunct1]
  have "timeoutRetryPending s1 = insert (inv_providerId c) (timeoutRetryPending s)" by (rule mp)
  then have p1: "timeoutRetryPending s1 = {''claude''}"
    unfolding c s by (simp add: init_def)
  from first [THEN conjunct2, THEN conjunct2, THEN conjunct2, THEN conjunct2, THEN conjunct2,
      THEN conjunct2, THEN conjunct2, THEN conjunct2, THEN conjunct2] f
  have "timers (step [claude_def] s1 (Fire (handle (?T s c))))
                 = filter (\<lambda>u. handle u \<noteq> handle (?T s c)) (timers s1)
               \<and> timeoutRetryTimers (step [claude_def] s1 (Fire (handle (?T s c))))
                 = (timeoutRetryTimers s1)(inv_providerId c := None)
               \<and> timeoutRetryPending (step [claude_def] s1 (Fire (handle (?T s c))))
                 = timeoutRetryPending s1" by (rule mp)
  then have fired: "timers (step [claude_def] s1 (Fire 0)) = []"
      and pf: "timeoutRetryPending (step [claude_def] s1 (Fire 0)) = {''claude''}"
    unfolding t1' p1 unfolding c s by (simp_all add: init_def)
  define s2 where "s2 = step [claude_def] s1 (Fire 0)"
  define c2 where "c2 = suspended s2 ! 0"
  have c2: "c2 = \<lparr>inv_def = claude_def, inv_providerId = ''claude'', inv_reason = TimeoutRetry,
        inv_opts = Some \<lparr>opts_timeoutMs = Some 12000, allowRetry = Some False\<rparr>,
        inv_timeoutMs = 12000, from_timer = True\<rparr>"
    unfolding c2_def s2_def sus by simp
  have g1: "0 < length (suspended s2)" unfolding s2_def sus by simp
  have g2: "c2 = suspended s2 ! 0" by (simp add: c2_def)
  have g3: "tryCommands slow_env (inv_def c2) (inv_timeoutMs c2) = Some (slow_result 12000)"
    unfolding c2 by (simp add: slow_env_try)
  note second = retry_scheduling [OF g1 g2 g3, where defs = "[claude_def]" and wins = "[]"
      and now = 1 and d' = claude_def, unfolded Let_def]
  have off: "\<exists>op. inv_opts c2 = Some op \<and> allowRetry op = Some False"
    unfolding c2 by simp
  from second [THEN conjunct2, THEN conjunct2, THEN conjunct2, THEN conjunct1] off
  have t2: "timers (step [claude_def] s2 (Settle 0 slow_env [] 1)) = timers s2"
    by (rule mp)
  have ft: "from_timer c2" unfolding c2 by simp
  from second [THEN conjunct2, THEN conjunct2, THEN conjunct2, THEN conjunct2, THEN conjunct2,
      THEN conjunct2, THEN conjunct2, THEN conjunct1] ft
  have "timeoutRetryPending (step [claude_def] s2 (Settle 0 slow_env [] 1))
      = timeoutRetryPending s2 - {inv_providerId c2}" by (rule mp)
  then have p3: "timeoutRetryPending (step [claude_def] s2 (Settle 0 slow_env [] 1)) = {}"
    unfolding s2_def pf unfolding c2 by simp
  have run2: "run [claude_def] init [Call ''claude'' Manual None, Settle 0 slow_env [] 0, Fire 0] = s2"
    by (simp add: run_def s2_def s1_def s_def)
  have run3: "run [claude_def] init
         [Call ''claude'' Manual None, Settle 0 slow_env [] 0, Fire 0, Settle 0 slow_env [] 1]
       = step [claude_def] s2 (Settle 0 slow_env [] 1)"
    by (simp add: run_def s2_def s1_def s_def)
  define sb where "sb = run [claude_def] init
      [Call ''claude'' Manual None, Call ''claude'' Manual None]"
  define cb where "cb = suspended sb ! 0"
  have sb: "sb = init\<lparr>suspended := [?M, ?M]\<rparr>"
    unfolding sb_def by (simp add: run_def init_def service_defs claude_def_sel)
  have cb: "cb = ?M" unfolding cb_def sb by simp
  have b1: "0 < length (suspended sb)" unfolding sb by simp
  have b2: "cb = suspended sb ! 0" by (simp add: cb_def)
  have b3: "tryCommands slow_env (inv_def cb) (inv_timeoutMs cb) = Some (slow_result 3000)"
    unfolding cb by (simp add: slow_env_try)
  define sb1 where "sb1 = step [claude_def] sb (Settle 0 slow_env [] 0)"
  note both = retry_scheduling [OF b1 b2 b3, where defs = "[claude_def]" and wins = "[]"
      and now = 0 and d' = claude_def, unfolded Let_def, folded sb1_def]
  have schedb: "timedOut (slow_result 3000)
      \<and> (resolvedPath (slow_result 3000) \<noteq> None \<or> stdout (slow_result 3000) \<noteq> [])
      \<and> (\<forall>op. inv_opts cb = Some op \<longrightarrow> allowRetry op \<noteq> Some False)
      \<and> inv_providerId cb \<notin> timeoutRetryPending sb"
    unfolding cb sb by (simp add: slow_result_def init_def)
  have nftb: "\<not> from_timer cb" unfolding cb by simp
  from both [THEN conjunct2, THEN conjunct1] schedb
  have tb: "timers sb1 = timers sb @ [?T sb cb]" by (rule mp)
  then have tb': "timers sb1 = [\<lparr>handle = 0, providerId = ''claude'', retryTimeoutMs = 12000\<rparr>]"
    unfolding cb sb by (simp add: init_def)
  from schedb nftb have "(timedOut (slow_result 3000)
      \<and> (resolvedPath (slow_result 3000) \<noteq> None \<or> stdout (slow_result 3000) \<noteq> [])
      \<and> (\<forall>op. inv_opts cb = Some op \<longrightarrow> allowRetry op \<noteq> Some False)
      \<and> inv_providerId cb \<notin> timeoutRetryPending sb) \<and> \<not> from_timer cb" by (rule conjI)
  with both [THEN conjunct2, THEN conjunct2, THEN conjunct2, THEN conjunct2, THEN conjunct2,
      THEN conjunct1]
  have "timeoutRetryPending sb1 = insert (inv_providerId cb) (timeoutRetryPending sb)" by (rule mp)
  then have pb: "inv_providerId cb \<in> timeoutRetryPending sb1" by simp
  have susb: "suspended sb1 = [?M]"
    unfolding sb1_def sb by (simp add: init_def service_defs claude_def_sel slow_env_try)
  have kb: "0 < length (suspended sb1)
      \<and> inv_providerId (suspended sb1 ! 0) = inv_providerId cb"
    unfolding susb cb by simp
  from both [THEN conjunct2, THEN conjunct2, THEN conjunct2, THEN conjunct2, THEN conjunct2,
      THEN conjunct2, THEN conjunct2, THEN conjunct2, THEN conjunct1] pb
  have "\<forall>k2 env2 wins2 now2.
      k2 < length (suspended sb1) \<and> inv_providerId (suspended sb1 ! k2) = inv_providerId cb \<longrightarrow>
      timers (step [claude_def] sb1 (Settle k2 env2 wins2 now2)) = timers sb1" by (rule mp)
  then have "0 < length (suspended sb1) \<and> inv_providerId (suspended sb1 ! 0) = inv_providerId cb \<longrightarrow>
      timers (step [claude_def] sb1 (Settle 0 slow_env [] 1)) = timers sb1" by (elim allE)
  with kb have tb2: "timers (step [claude_def] sb1 (Settle 0 slow_env [] 1)) = timers sb1"
    by (rule rev_mp)
  have runb: "run [claude_def] init
         [Call ''claude'' Manual None, Call ''claude'' Manual None,
          Settle 0 slow_env [] 0, Settle 0 slow_env [] 1]
       = step [claude_def] sb1 (Settle 0 slow_env [] 1)"
    by (simp add: run_def sb1_def sb_def)
  have e1: "timers s1 = [\<lparr>handle = 0, providerId = ''claude'', retryTimeoutMs = 12000\<rparr>]"
    by (rule t1')
  have e2: "suspended s2 = [\<lparr>inv_def = claude_def, inv_providerId = ''claude'',
         inv_reason = TimeoutRetry,
         inv_opts = Some \<lparr>opts_timeoutMs = Some 12000, allowRetry = Some False\<rparr>,
         inv_timeoutMs = 12000, from_timer = True\<rparr>]"
    unfolding s2_def by (rule sus)
  have e6: "timers (step [claude_def] sb1 (Settle 0 slow_env [] 1))
      = [\<lparr>handle = 0, providerId = ''claude'', retryTimeoutMs = 12000\<rparr>]"
    unfolding tb2 by (rule tb')
  have e7: "timers s2 = []" unfolding s2_def by (rule fired)
  show ?thesis
    unfolding run1 run2 run3 runb
    by (intro conjI e1 e2 t2 p1 m1 e6 e7 p3)
qed

subsection \<open>C6: the probe cascade\<close>

text \<open>
  Claim C6. For a provider with a non-empty command list: if the candidates before
  \<open>c\<close> all fail without an error other than \<^verbatim>\<open>ENOENT\<close>, and the probe of \<open>c\<close> succeeds or
  fails with an attached error whose code is not \<^verbatim>\<open>ENOENT\<close>, then the cascade returns
  the result of \<open>c\<close> (the later candidates play no part); and if every candidate fails
  with \<^verbatim>\<open>ENOENT\<close>, the cascade is the shell fallback on the last candidate.
\<close>

theorem probe_cascade:
  assumes "commands d \<noteq> []"
  shows "(commands d = pre @ c # post
          \<and> (\<forall>x\<in>set pre. \<exists>r'. runCommand env x (args d) ms = Some r' \<and> \<not> success r'
                \<and> (case error r' of None \<Rightarrow> True | Some e \<Rightarrow> code e = Some ''ENOENT''))
          \<and> runCommand env c (args d) ms = Some r
          \<and> (success r \<or> (\<exists>e. error r = Some e \<and> code e \<noteq> Some ''ENOENT''))
          \<longrightarrow> tryCommands env d ms = Some r)
       \<and> ((\<forall>x\<in>set (commands d). \<exists>r' e. runCommand env x (args d) ms = Some r' \<and> \<not> success r'
                \<and> error r' = Some e \<and> code e = Some ''ENOENT'')
          \<longrightarrow> tryCommands env d ms
                = runCommandViaShell env (Some (last (commands d))) (args d) ms)"
proof (intro conjI impI)
  assume a: "commands d = pre @ c # post
          \<and> (\<forall>x\<in>set pre. \<exists>r'. runCommand env x (args d) ms = Some r' \<and> \<not> success r'
                \<and> (case error r' of None \<Rightarrow> True | Some e \<Rightarrow> code e = Some ''ENOENT''))
          \<and> runCommand env c (args d) ms = Some r
          \<and> (success r \<or> (\<exists>e. error r = Some e \<and> code e \<noteq> Some ''ENOENT''))"
  then have "tryCommands env d ms
      = tryCommands_loop env (c # post) (args d) ms (Some (last (commands d)))"
    unfolding tryCommands_def using assms tryCommands_loop_skip [of pre env "args d" ms "c # post"]
    by simp
  also have "\<dots> = Some r" using a by (intro tryCommands_loop_stop) blast+
  finally show "tryCommands env d ms = Some r" .
next
  assume a: "\<forall>x\<in>set (commands d). \<exists>r' e. runCommand env x (args d) ms = Some r' \<and> \<not> success r'
                \<and> error r' = Some e \<and> code e = Some ''ENOENT''"
  have "\<forall>x\<in>set (commands d). \<exists>r'. runCommand env x (args d) ms = Some r' \<and> \<not> success r'
                \<and> (case error r' of None \<Rightarrow> True | Some e \<Rightarrow> code e = Some ''ENOENT'')"
  proof
    fix x assume "x \<in> set (commands d)"
    with a obtain r' e where "runCommand env x (args d) ms = Some r'" "\<not> success r'"
      "error r' = Some e" "code e = Some ''ENOENT''" by blast
    then show "\<exists>r'. runCommand env x (args d) ms = Some r' \<and> \<not> success r'
                \<and> (case error r' of None \<Rightarrow> True | Some e \<Rightarrow> code e = Some ''ENOENT'')"
      by simp
  qed
  from tryCommands_loop_skip [OF this, of "[]"]
  show "tryCommands env d ms = runCommandViaShell env (Some (last (commands d))) (args d) ms"
    unfolding tryCommands_def using assms by simp
qed

text \<open>
  The theorem on a provider whose first candidate does not exist and whose second
  succeeds, and on the machine where the only candidate is not installed.
\<close>

theorem probe_cascade_witness:
  "commands two_commands_def = [''claude-code''] @ ''claude'' # []
   \<and> tryCommands ok_env two_commands_def 3000 = Some (ok_result 3000)
   \<and> success (ok_result 3000)
   \<and> tryCommands not_installed_env claude_def 3000
        = runCommandViaShell not_installed_env (Some ''claude'') [''--version''] 3000"
proof -
  have n2: "commands two_commands_def \<noteq> []" and c2: "commands two_commands_def = [''claude-code''] @ ''claude'' # []"
    and a2: "args two_commands_def = [''--version'']"
    by (simp_all add: two_commands_def_def claude_def_def)
  have n1: "commands claude_def \<noteq> []" and c1: "commands claude_def = [''claude'']"
    and a1: "args claude_def = [''--version'']"
    by (simp_all add: claude_def_def)
  have skip: "\<forall>x\<in>set [''claude-code'']. \<exists>r'. runCommand ok_env x (args two_commands_def) 3000 = Some r'
      \<and> \<not> success r' \<and> (case error r' of None \<Rightarrow> True | Some e \<Rightarrow> code e = Some ''ENOENT'')"
    unfolding ok_env_def by (simp add: posix_other_run enoent_def)
  have stop: "runCommand ok_env ''claude'' (args two_commands_def) 3000 = Some (ok_result 3000)"
    by (rule ok_env_run)
  have s: "success (ok_result 3000)" by (simp add: ok_result_def)
  have all: "\<forall>x\<in>set (commands claude_def). \<exists>r' e. runCommand not_installed_env x (args claude_def) 3000 = Some r'
      \<and> \<not> success r' \<and> error r' = Some e \<and> code e = Some ''ENOENT''"
    unfolding c1 by (simp add: not_installed_direct enoent_def)
  from probe_cascade [OF n2, where pre = "[''claude-code'']" and c = "''claude''" and post = "[]"
         and env = ok_env and ms = 3000 and r = "ok_result 3000"]
       c2 skip stop s
  have 1: "tryCommands ok_env two_commands_def 3000 = Some (ok_result 3000)" by blast
  from probe_cascade [OF n1, where env = not_installed_env and ms = 3000] all
  have 2: "tryCommands not_installed_env claude_def 3000
        = runCommandViaShell not_installed_env (Some (last (commands claude_def))) (args claude_def) 3000"
    by blast
  show ?thesis using c2 1 s 2 by (simp add: c1 a1)
qed

subsection \<open>C7: the result of a probe that exits\<close>

text \<open>
  Claim C7. When the child of a probe closes, the Command Result has
  \<open>success = (not timed out and exit code = 0)\<close>, and its version is the first match of
  \<^verbatim>\<open>\d+\.\d+(\.\d+)?\<close> in stdout, else the first match in stderr, else null. A probe that
  exits with code 0 and stdout \<^verbatim>\<open>v2.3.1\<close> yields success, the version \<^verbatim>\<open>2.3.1\<close> and, without
  a status resolver, the classification connected.
\<close>

theorem probe_exit_result:
  assumes "spawn_child env (resolveCommandPath env cmd) cmd argv ms
             = CloseEvent exit_code out err didTimeout"
  shows "\<exists>r. runCommand env cmd argv ms = Some r
       \<and> success r = (\<not> didTimeout \<and> exit_code = Some 0)
       \<and> (case version r of
            Some v \<Rightarrow> first_match version_re out v
                      \<or> (no_match version_re out \<and> first_match version_re err v)
          | None \<Rightarrow> no_match version_re out \<and> no_match version_re err)
       \<and> (exit_code = Some 0 \<and> \<not> didTimeout \<and> out = ''v2.3.1'' \<longrightarrow>
            success r \<and> version r = Some ''2.3.1''
            \<and> (statusResolver d = None \<longrightarrow> resolveStatus d r = Connected))"
proof -
  let ?r = "\<lparr>command = Some cmd,
           success = (\<not> didTimeout \<and> exit_code = Some 0),
           error = (if didTimeout
                    then Some \<lparr>message = ''Command timeout'', code = None\<rparr> else None),
           stdout = out, stderr = err, status = exit_code,
           version = or_else (extractVersion out) (extractVersion err),
           resolvedPath = resolveCommandPath env cmd, timedOut = didTimeout, timeoutMs = ms\<rparr>"
  have run: "runCommand env cmd argv ms = Some ?r" using assms by (rule runCommand_close)
  have s: "success ?r = (\<not> didTimeout \<and> exit_code = Some 0)" by simp
  have v: "case version ?r of
            Some v \<Rightarrow> first_match version_re out v
                      \<or> (no_match version_re out \<and> first_match version_re err v)
          | None \<Rightarrow> no_match version_re out \<and> no_match version_re err"
    using version_of_outputs [of out err] by simp
  have p: "exit_code = Some 0 \<and> \<not> didTimeout \<and> out = ''v2.3.1'' \<longrightarrow>
            success ?r \<and> version ?r = Some ''2.3.1''
            \<and> (statusResolver d = None \<longrightarrow> resolveStatus d ?r = Connected)"
  proof (intro impI conjI)
    assume a: "exit_code = Some 0 \<and> \<not> didTimeout \<and> out = ''v2.3.1''"
    then show "success ?r" by simp
    have "or_else (extractVersion ''v2.3.1'') (extractVersion err) = Some ''2.3.1''"
      unfolding extractVersion_v231 by (simp add: or_else_def truthy_def)
    with a show "version ?r = Some ''2.3.1''" by simp
    show "resolveStatus d ?r = Connected" if "statusResolver d = None"
      using that a by (simp add: resolveStatus_def)
  qed
  show ?thesis
    by (rule exI [where x = ?r]) (intro conjI run s v p)
qed

text \<open>
  The theorem on the machine where the tool answers \<^verbatim>\<open>v2.3.1\<close>.
\<close>

theorem probe_exit_result_witness:
  "spawn_child ok_env (resolveCommandPath ok_env ''claude'') ''claude'' [''--version''] 3000
     = CloseEvent (Some 0) ''v2.3.1'' [] False
   \<and> (\<exists>r. runCommand ok_env ''claude'' [''--version''] 3000 = Some r
         \<and> success r \<and> version r = Some ''2.3.1'' \<and> resolveStatus claude_def r = Connected)"
proof -
  have h: "spawn_child ok_env (resolveCommandPath ok_env ''claude'') ''claude'' [''--version''] 3000
     = CloseEvent (Some 0) ''v2.3.1'' [] False"
    unfolding ok_env_def by (rule posix_spawn_child_tool)
  from probe_exit_result [OF h, of claude_def] obtain r where
    "runCommand ok_env ''claude'' [''--version''] 3000 = Some r" "success r"
    "version r = Some ''2.3.1''" "resolveStatus claude_def r = Connected"
    by (auto simp: claude_def_sel)
  with h show ?thesis by (intro conjI exI [where x = r]) simp_all
qed

subsection \<open>C8: the order of message resolution\<close>

text \<open>
  Claim C8, amended. For the provider with the id \<^verbatim>\<open>codex\<close> the message is null when
  the classification is connected and a fixed text otherwise, whatever else the
  definition holds. For every other provider the message is that of the definition's
  message resolver when there is one; else the text \<^verbatim>\<open><name> was not found in PATH.\<close>
  for the classification missing; else, for the classification error, the first of
  stderr and stdout that is not blank, trimmed, and else the message of the attached
  error if there is one; else null.
\<close>

theorem message_resolution_order:
  "(def_id d = ''codex'' \<longrightarrow>
      resolveMessage d r st =
        (if st = Connected then None
         else Some ''Codex CLI not detected. Install @openai/codex to enable Codex agents.''))
   \<and> (def_id d \<noteq> ''codex'' \<and> messageResolver d = Some f \<longrightarrow> resolveMessage d r st = f r)
   \<and> (def_id d \<noteq> ''codex'' \<and> messageResolver d = None \<longrightarrow>
        (st = Missing \<longrightarrow> resolveMessage d r st = Some (name d @ '' was not found in PATH.''))
      \<and> (st = Error \<and> trim (stderr r) \<noteq> [] \<longrightarrow> resolveMessage d r st = Some (trim (stderr r)))
      \<and> (st = Error \<and> trim (stderr r) = [] \<and> trim (stdout r) \<noteq> [] \<longrightarrow>
            resolveMessage d r st = Some (trim (stdout r)))
      \<and> (st = Error \<and> trim (stderr r) = [] \<and> trim (stdout r) = [] \<longrightarrow>
            resolveMessage d r st = map_option message (error r))
      \<and> (st = Connected \<or> st = NeedsKey \<longrightarrow> resolveMessage d r st = None))"
  by (cases "error r") (simp_all add: resolveMessage_def)

text \<open>
  The theorem on the provider \<^verbatim>\<open>codex\<close>, on a provider with a message resolver, and on
  a plain provider for each classification.
\<close>

theorem message_resolution_order_witness:
  "resolveMessage codex_def not_installed_result Error
     = Some ''Codex CLI not detected. Install @openai/codex to enable Codex agents.''
   \<and> resolveMessage (claude_def\<lparr>messageResolver := Some (\<lambda>r. Some (stdout r))\<rparr>)
        blank_stderr_result Error = Some (stdout blank_stderr_result)
   \<and> resolveMessage claude_def not_installed_result Missing
        = Some ''Claude Code was not found in PATH.''
   \<and> resolveMessage claude_def not_installed_result Error
        = Some ''zsh:1: command not found: claude''
   \<and> resolveMessage claude_def blank_stderr_result Error = Some ''permission denied''
   \<and> resolveMessage claude_def (blank_stderr_result\<lparr>stdout := []\<rparr>) Error
        = Some ''spawn claude EACCES''
   \<and> resolveMessage claude_def not_installed_result Connected = None"
proof -
  let ?ov = "claude_def\<lparr>messageResolver := Some (\<lambda>r. Some (stdout r))\<rparr>"
  have ids: "def_id codex_def = ''codex''" "def_id claude_def \<noteq> ''codex''"
    "def_id ?ov \<noteq> ''codex''" "messageResolver claude_def = None"
    "messageResolver ?ov = Some (\<lambda>r. Some (stdout r))" "name claude_def = ''Claude Code''"
    by (simp_all add: codex_def_def claude_def_def)
  have t: "trim (stderr not_installed_result) = ''zsh:1: command not found: claude''"
    "trim (stderr blank_stderr_result) = []"
    "trim (stdout blank_stderr_result) = ''permission denied''"
    "trim (stderr (blank_stderr_result\<lparr>stdout := []\<rparr>)) = []"
    "trim (stdout (blank_stderr_result\<lparr>stdout := []\<rparr>)) = []"
    "error (blank_stderr_result\<lparr>stdout := []\<rparr>)
       = Some \<lparr>message = ''spawn claude EACCES'', code = Some ''EACCES''\<rparr>"
    by (simp_all add: not_installed_result_def blank_stderr_result_def trim_def is_space_def)
  from message_resolution_order [where d = codex_def and r = not_installed_result and st = Error]
  have 1: "resolveMessage codex_def not_installed_result Error
     = Some ''Codex CLI not detected. Install @openai/codex to enable Codex agents.''"
    using ids(1) by simp
  from message_resolution_order [where d = ?ov and f = "\<lambda>r. Some (stdout r)"
         and r = blank_stderr_result and st = Error]
  have 2: "resolveMessage ?ov blank_stderr_result Error = Some (stdout blank_stderr_result)"
    using ids(3,5) by simp
  from message_resolution_order [where d = claude_def and r = not_installed_result and st = Missing]
  have 3: "resolveMessage claude_def not_installed_result Missing
        = Some ''Claude Code was not found in PATH.''"
    using ids(2,4,6) by simp
  from message_resolution_order [where d = claude_def and r = not_installed_result and st = Error]
  have 4: "resolveMessage claude_def not_installed_result Error
        = Some ''zsh:1: command not found: claude''"
    using ids(2,4) t(1) by simp
  from message_resolution_order [where d = claude_def and r = blank_stderr_result and st = Error]
  have 5: "resolveMessage claude_def blank_stderr_result Error = Some ''permission denied''"
    using ids(2,4) t(2,3) by simp
  from message_resolution_order [where d = claude_def and r = "blank_stderr_result\<lparr>stdout := []\<rparr>" and st = Error]
  have 6: "resolveMessage claude_def (blank_stderr_result\<lparr>stdout := []\<rparr>) Error
        = Some ''spawn claude EACCES''"
    using ids(2,4) t(4,5,6) by simp
  from message_resolution_order [where d = claude_def and r = not_installed_result and st = Connected]
  have 7: "resolveMessage claude_def not_installed_result Connected = None"
    using ids(2,4) by simp
  show ?thesis by (intro conjI 1 2 3 4 5 6 7)
qed

text \<open>
  The claim as it was stated fails for the provider \<^verbatim>\<open>codex\<close>, whose message for the
  classification missing is not the generic one, and for a result whose stderr is a
  single space: the message is the trimmed stdout, not stderr.
\<close>

theorem message_order_counterexample:
  "messageResolver codex_def = None
   \<and> resolveMessage codex_def not_installed_result Missing
        = Some ''Codex CLI not detected. Install @openai/codex to enable Codex agents.''
   \<and> resolveMessage codex_def not_installed_result Missing
        \<noteq> Some ''Codex was not found in PATH.''
   \<and> messageResolver claude_def = None
   \<and> stderr blank_stderr_result = '' ''
   \<and> resolveMessage claude_def blank_stderr_result Error = Some ''permission denied''
   \<and> resolveMessage claude_def blank_stderr_result Error \<noteq> Some (stderr blank_stderr_result)"
  by (simp add: resolveMessage_def codex_def_def claude_def_def blank_stderr_result_def
        trim_def is_space_def)

subsection \<open>C9: the resolved path of the shell fallback\<close>

text \<open>
  Claim C9. When the shell of the fallback settles with a status other than 127, the
  resolved path of the fallback's result is the resolved path of the shell itself.
  So whenever the shell resolves, a definition without status resolver classifies
  every such result as connected by the resolved-path rule; and as the result for
  status 127 carries an error, no result of the fallback is classified as missing.
\<close>

theorem shell_fallback_path:
  assumes "runCommand env (user_shell env) (shellArgs env cmd argv) ms = Some r0"
  shows "\<exists>r. runCommandViaShell env cmd argv ms = Some r
       \<and> (status r0 \<noteq> Some 127 \<longrightarrow> resolvedPath r = resolveCommandPath env (user_shell env))
       \<and> (resolveCommandPath env (user_shell env) \<noteq> None \<and> statusResolver d = None \<longrightarrow>
            (status r0 \<noteq> Some 127 \<longrightarrow> truthy (resolvedPath r) \<and> resolveStatus d r = Connected)
            \<and> resolveStatus d r \<noteq> Missing)"
proof (cases "status r0 = Some 127")
  case True
  let ?r = "r0\<lparr>command := cmd, success := False, resolvedPath := None,
                status := None, error := Some (not_found_error cmd)\<rparr>"
  have run: "runCommandViaShell env cmd argv ms = Some ?r"
    using assms True by (simp add: runCommandViaShell_def)
  have "resolveStatus d ?r \<noteq> Missing" if "statusResolver d = None"
    using that by (simp add: resolveStatus_def truthy_def)
  with True run show ?thesis by simp
next
  case False
  let ?r = "r0\<lparr>command := cmd\<rparr>"
  have run: "runCommandViaShell env cmd argv ms = Some ?r"
    using assms False by (simp add: runCommandViaShell_def)
  have p: "resolvedPath ?r = resolveCommandPath env (user_shell env)"
    using runCommand_resolvedPath [OF assms] by simp
  have t: "truthy (resolvedPath ?r)" if "resolveCommandPath env (user_shell env) \<noteq> None"
    using that resolveCommandPath_nonempty [of env "user_shell env"] unfolding p
    by (simp add: truthy_path)
  have c: "resolveStatus d ?r = Connected"
    if "resolveCommandPath env (user_shell env) \<noteq> None" "statusResolver d = None"
    using t [OF that(1)] that(2) by (simp add: resolveStatus_def)
  from run p t c show ?thesis by simp
qed

text \<open>
  The theorem on the Windows machine, where \<^verbatim>\<open>cmd.exe\<close> answers with exit code 1.
\<close>

theorem shell_fallback_path_witness:
  "runCommand windows_env (user_shell windows_env)
      (shellArgs windows_env None [''--version'']) 3000
     = Some \<lparr>command = Some ''cmd.exe'', success = False, error = None, stdout = [],
             stderr = ''is not recognized as a command'', status = Some 1, version = None,
             resolvedPath = Some cmd_exe_path, timedOut = False, timeoutMs = 3000\<rparr>
   \<and> resolveCommandPath windows_env (user_shell windows_env) = Some cmd_exe_path
   \<and> (\<exists>r. runCommandViaShell windows_env None [''--version''] 3000 = Some r
         \<and> resolvedPath r = Some cmd_exe_path \<and> resolveStatus claude_def r = Connected)"
proof -
  let ?r0 = "\<lparr>command = Some ''cmd.exe'', success = False, error = None, stdout = [],
             stderr = ''is not recognized as a command'', status = Some 1, version = None,
             resolvedPath = Some cmd_exe_path, timedOut = False, timeoutMs = 3000\<rparr>"
  have h: "runCommand windows_env (user_shell windows_env)
      (shellArgs windows_env None [''--version'']) 3000 = Some ?r0"
    unfolding windows_user_shell windows_shell_args
    unfolding runCommand_def windows_which_shell Let_def windows_spawn_shell
    by (simp add: or_else_def truthy_def extractVersion_def match_here_def is_digit_def)
  have p: "resolveCommandPath windows_env (user_shell windows_env) = Some cmd_exe_path"
    unfolding windows_user_shell by (rule windows_which_shell)
  from shell_fallback_path [OF h, of claude_def] obtain r where
    r: "runCommandViaShell windows_env None [''--version''] 3000 = Some r"
       "status ?r0 \<noteq> Some 127 \<longrightarrow> resolvedPath r = resolveCommandPath windows_env (user_shell windows_env)"
       "resolveCommandPath windows_env (user_shell windows_env) \<noteq> None \<and> statusResolver claude_def = None \<longrightarrow>
            (status ?r0 \<noteq> Some 127 \<longrightarrow> truthy (resolvedPath r) \<and> resolveStatus claude_def r = Connected)
            \<and> resolveStatus claude_def r \<noteq> Missing"
    by blast
  from r(2) have a: "resolvedPath r = Some cmd_exe_path" unfolding p by simp
  from r(3) have b: "resolveStatus claude_def r = Connected"
    unfolding p by (simp add: claude_def_sel)
  show ?thesis by (intro conjI h p exI [where x = r] r(1) a b)
qed

subsection \<open>C10: the persisted status and its broadcast\<close>

text \<open>
  Claim C10. When the probe cascade of a suspended check delivers its result, the
  status stored for the provider has the four fields installed, path, version and
  last-checked time: installed holds exactly when the classification is connected
  (missing, needs_key and error store \<open>False\<close>), path and version are those of the
  Command Result; and that same status is delivered, with the provider id, to every
  open window whose \<^verbatim>\<open>send\<close> does not throw.
\<close>

theorem persisted_status_and_broadcast:
  assumes "k < length (suspended s)" and "c = suspended s ! k"
    and "tryCommands env (inv_def c) (inv_timeoutMs c) = Some r"
  shows "let s' = step defs s (Settle k env wins now);
             st = \<lparr>installed = (resolveStatus (inv_def c) r = Connected), path = resolvedPath r,
                   ps_version = version r, lastChecked = now\<rparr>
         in providerStatusCache s' (def_id (inv_def c)) = Some st
          \<and> (installed st \<longleftrightarrow> resolveStatus (inv_def c) r = Connected)
          \<and> (resolveStatus (inv_def c) r \<in> {Missing, NeedsKey, Error} \<longrightarrow> \<not> installed st)
          \<and> path st = resolvedPath r \<and> ps_version st = version r
          \<and> delivered s' = delivered s @
               map (\<lambda>w. (win_id w, ''provider:status-updated'', def_id (inv_def c), st))
                   (filter (\<lambda>w. \<not> send_throws w) wins)
          \<and> (\<forall>w\<in>set wins. \<not> send_throws w \<longrightarrow>
                (win_id w, ''provider:status-updated'', def_id (inv_def c), st) \<in> set (delivered s'))"
proof -
  define s0 where "s0 = s\<lparr>suspended := take k (suspended s) @ drop (Suc k) (suspended s)\<rparr>"
  define s' where "s' = step defs s (Settle k env wins now)"
  define st where "st = \<lparr>installed = (resolveStatus (inv_def c) r = Connected), path = resolvedPath r,
                   ps_version = version r, lastChecked = now\<rparr>"
  have s': "s' = checkProvider_resume wins now s0 c r"
    unfolding s'_def s0_def using assms step_Settle [of k s env r defs wins now] by simp
  have 1: "providerStatusCache s' (def_id (inv_def c)) = Some st"
    unfolding s' resume_store st_def by simp
  have 2: "installed st \<longleftrightarrow> resolveStatus (inv_def c) r = Connected" by (simp add: st_def)
  have 3: "resolveStatus (inv_def c) r \<in> {Missing, NeedsKey, Error} \<longrightarrow> \<not> installed st"
    by (auto simp: st_def)
  have 4: "path st = resolvedPath r" and 5: "ps_version st = version r" by (simp_all add: st_def)
  have 6: "delivered s' = delivered s @
               map (\<lambda>w. (win_id w, ''provider:status-updated'', def_id (inv_def c), st))
                   (filter (\<lambda>w. \<not> send_throws w) wins)"
    unfolding s' resume_delivered st_def by (simp add: s0_def)
  have 7: "\<forall>w\<in>set wins. \<not> send_throws w \<longrightarrow>
                (win_id w, ''provider:status-updated'', def_id (inv_def c), st) \<in> set (delivered s')"
    unfolding 6 by (simp add: image_iff) blast
  from 1 2 3 4 5 6 7 show ?thesis
    unfolding Let_def s'_def [symmetric] st_def [symmetric]
    by (intro conjI)
qed

text \<open>
  The theorem on a successful check with three windows open, one of them unreachable.
\<close>

theorem persisted_status_and_broadcast_witness:
  "providerStatusCache
     (run [claude_def] init [Call ''claude'' Manual None, Settle 0 ok_env three_windows 42])
     ''claude''
     = Some \<lparr>installed = True, path = Some tool_path, ps_version = Some ''2.3.1'',
             lastChecked = 42\<rparr>
   \<and> delivered
     (run [claude_def] init [Call ''claude'' Manual None, Settle 0 ok_env three_windows 42])
     = [(1, ''provider:status-updated'', ''claude'',
         \<lparr>installed = True, path = Some tool_path, ps_version = Some ''2.3.1'',
          lastChecked = 42\<rparr>),
        (3, ''provider:status-updated'', ''claude'',
         \<lparr>installed = True, path = Some tool_path, ps_version = Some ''2.3.1'',
          lastChecked = 42\<rparr>)]"
proof -
  define s where "s = run [claude_def] init [Call ''claude'' Manual None]"
  define c where "c = suspended s ! 0"
  have s: "s = init\<lparr>suspended := [\<lparr>inv_def = claude_def, inv_providerId = ''claude'',
      inv_reason = Manual, inv_opts = None, inv_timeoutMs = 3000, from_timer = False\<rparr>]\<rparr>"
    unfolding s_def by (rule called_state)
  have c: "c = \<lparr>inv_def = claude_def, inv_providerId = ''claude'',
      inv_reason = Manual, inv_opts = None, inv_timeoutMs = 3000, from_timer = False\<rparr>"
    unfolding c_def s by simp
  have h1: "0 < length (suspended s)" unfolding s by simp
  have h2: "c = suspended s ! 0" by (simp add: c_def)
  have h3: "tryCommands ok_env (inv_def c) (inv_timeoutMs c) = Some (ok_result 3000)"
    unfolding c by (simp add: ok_env_try)
  have st: "resolveStatus (inv_def c) (ok_result 3000) = Connected"
    unfolding c by (simp add: resolveStatus_def claude_def_sel ok_result_def)
  have run1: "run [claude_def] init [Call ''claude'' Manual None, Settle 0 ok_env three_windows 42]
      = step [claude_def] s (Settle 0 ok_env three_windows 42)"
    by (simp add: run_def s_def)
  note inst = persisted_status_and_broadcast [OF h1 h2 h3, where defs = "[claude_def]"
      and wins = three_windows and now = 42, unfolded Let_def st]
  from inst have 1: "providerStatusCache (step [claude_def] s (Settle 0 ok_env three_windows 42))
        (def_id (inv_def c))
      = Some \<lparr>installed = (Connected = Connected), path = resolvedPath (ok_result 3000),
           ps_version = version (ok_result 3000), lastChecked = 42\<rparr>"
    by (rule conjunct1)
  from inst have 2: "delivered (step [claude_def] s (Settle 0 ok_env three_windows 42)) = delivered s @
      map (\<lambda>w. (win_id w, ''provider:status-updated'', def_id (inv_def c),
            \<lparr>installed = (Connected = Connected), path = resolvedPath (ok_result 3000),
             ps_version = version (ok_result 3000), lastChecked = 42\<rparr>))
          (filter (\<lambda>w. \<not> send_throws w) three_windows)"
    by (elim conjE)
  show ?thesis
    unfolding run1 using 1 2
    by (simp add: c s init_def claude_def_sel ok_result_def three_windows_def)
qed

end
